theory Spec2Isabelle
  imports Main
begin

section \<open>Data model\<close>

text \<open>
  The window manager's C structures, as far as the switch panel (switchpanel.c) and the
  workspace engine (workspace.c) read or write them. A \<open>WWindow\<close> is kept by value
  together with its address (\<open>self\<close>), so that pointer comparisons of the source stay
  pointer comparisons. Pointers that may be \<open>NULL\<close> are options. C \<open>int\<close>s are
  unbounded integers: every count here is far below the 32-bit range. The one unsigned
  quantity, the width of a head, is reduced modulo \<open>2 ^ 32\<close> where the source computes
  with it.
\<close>

datatype error = NullDereference | OutOfBounds

record wwindow =
  self :: nat                        \<comment> \<open>the address of the \<open>WWindow\<close>\<close>
  client_win :: nat                  \<comment> \<open>the X window id\<close>
  wm_class :: "string option"
  wm_instance :: string              \<comment> \<open>set for every window: the source reads it without a test\<close>
  frame_workspace :: "int option"    \<comment> \<open>\<open>frame->workspace\<close>; \<open>None\<close> when \<open>frame\<close> is \<open>NULL\<close>\<close>
  head :: int                        \<comment> \<open>\<open>wGetHeadForWindow(wwin)\<close>\<close>
  mapped :: bool
  shaded :: bool
  miniaturized :: bool
  hidden :: bool
  selected :: bool
  changing_workspace :: bool
  is_gnustep :: bool
  omnipresent :: bool                \<comment> \<open>\<open>IS_OMNIPRESENT(wwin)\<close>\<close>
  no_focusable :: bool               \<comment> \<open>\<open>WFLAGP(wwin, no_focusable)\<close>\<close>
  skip_switchpanel :: bool           \<comment> \<open>\<open>WFLAGP(wwin, skip_switchpanel)\<close>\<close>
  icon_mapped :: "bool option"       \<comment> \<open>\<open>icon->mapped\<close>; \<open>None\<close> when \<open>icon\<close> is \<open>NULL\<close>\<close>
  main_window :: nat
  window_level :: int                \<comment> \<open>\<open>WINDOW_LEVEL(wwin)\<close>\<close>

record wapplication =
  app_main_window :: nat
  app_is_gnustep :: bool
  menu_win :: "wwindow option"
  main_window_desc :: wwindow
  last_focused :: "wwindow option"
  app_windows :: "wwindow list"
  app_last_workspace :: int

text \<open>
  The copy of the focused window that a workspace keeps while it is not current
  (\<open>wWorkspaceSaveFocusedWindow\<close> fills exactly these three fields of a fresh window).
\<close>

record saved_window =
  saved_class :: "string option"
  saved_instance :: string
  saved_client_win :: nat

record wdock =
  auto_collapse :: bool
  auto_raise_lower :: bool

record wworkspace =
  name :: string
  clip :: "wdock option"
  focused_window :: "saved_window option"

text \<open>Calls into collaborators whose code is outside these files, logged in order.\<close>

datatype notification =
  WMDidCreateWorkspaceNotification
  | WMDidDestroyWorkspaceNotification
  | WMDidChangeWorkspaceNotification
  | WMDidChangeWorkspaceNameNotification

datatype wcall =
  PostNotification notification int
  | SetFocusTo "wwindow option"

record wscreen =
  startup :: bool
  startup2 :: bool
  ignore_focus_events :: bool
  workspaces :: "wworkspace list"    \<comment> \<open>\<open>workspace_count\<close> is its length\<close>
  current_workspace :: int
  last_workspace :: int
  windows :: "wwindow list"          \<comment> \<open>from \<open>focused_window\<close> along \<open>prev\<close>\<close>
  wapp_list :: "wapplication list"
  pointer_head :: int                \<comment> \<open>\<open>wGetHeadForPointerLocation(scr)\<close>\<close>
  head_width :: int                  \<comment> \<open>the width of that head's rectangle, an \<open>unsigned int\<close>\<close>
  calls :: "wcall list"

text \<open>
  \<open>wPreferences\<close>, and the compile-time constants that the two files use but do not
  define (\<open>MAX_WORKSPACES\<close>, \<open>MAX_WORKSPACENAME_WIDTH\<close>, \<open>NSMainMenuWindowLevel\<close>):
  they are parameters of the model.
\<close>

record wenv =
  swtileImage :: bool                \<comment> \<open>whether \<open>wPreferences.swtileImage\<close> is set\<close>
  cycle_ignore_minimized :: bool
  cycle_active_head_only :: bool
  sticky_icons :: bool
  noclip :: bool
  MAX_WORKSPACES :: int
  MAX_WORKSPACENAME_WIDTH :: nat
  NSMainMenuWindowLevel :: int

definition workspace_count :: "wscreen \<Rightarrow> int" where
  "workspace_count scr = int (length (workspaces scr))"



text \<open>
  The value of an \<open>int\<close> or of an arithmetic result as a 32-bit \<open>unsigned int\<close>. The
  width of a \<open>WMRect\<close> is one (the type is declared in the toolkit's headers), so the
  arithmetic of \<open>wInitSwitchPanel\<close> on it is unsigned and wraps.
\<close>

definition uint32 :: "int \<Rightarrow> int" where
  "uint32 x = x mod 2 ^ 32"

section \<open>The switch panel (switchpanel.c)\<close>

record WSwitchPanel =
  sp_windows :: "wwindow list"
  sp_flags :: "int list"
  sp_has_win :: bool                 \<comment> \<open>whether \<open>panel->win\<close> was created\<close>
  current :: int
  firstVisible :: int
  visibleCount :: int

definition ICON_TILE_SIZE :: int where "ICON_TILE_SIZE = 64"
definition SCREEN_BORDER_SPACING :: int where "SCREEN_BORDER_SPACING = 2 * 20"
definition ICON_SELECTED :: int where "ICON_SELECTED = 2"
definition ICON_DIM :: int where "ICON_DIM = 4"

definition canReceiveFocus :: "wenv \<Rightarrow> wscreen \<Rightarrow> wwindow \<Rightarrow> int" where
  "canReceiveFocus E scr wwin =
     (if frame_workspace wwin \<noteq> None \<and> frame_workspace wwin \<noteq> Some (current_workspace scr)
      then 0
      else if cycle_active_head_only E \<and> head wwin \<noteq> pointer_head scr then 0
      else if no_focusable wwin then 0
      else if \<not> mapped wwin then
        (if \<not> shaded wwin \<and> \<not> miniaturized wwin \<and> \<not> hidden wwin then 0 else - 1)
      else 1)"

definition sameWindowClass :: "wwindow \<Rightarrow> wwindow \<Rightarrow> bool" where
  "sameWindowClass wwin curwin =
     (case (wm_class wwin, wm_class curwin) of
        (Some c, Some cc) \<Rightarrow>
          if (is_gnustep curwin \<or> cc = ''GNUstep'') \<and> wm_instance wwin \<noteq> wm_instance curwin
          then False
          else if c \<noteq> cc then False
          else True
      | _ \<Rightarrow> False)"

text \<open>
  \<open>changeImage\<close>: only the flag word of the tile is state; the pixels it paints are the
  rendering toolkit's.
\<close>

definition changeImage :: "wenv \<Rightarrow> WSwitchPanel \<Rightarrow> int \<Rightarrow> bool \<Rightarrow> bool \<Rightarrow> bool \<Rightarrow> WSwitchPanel" where
  "changeImage E panel idecks sel dim force =
     (if \<not> swtileImage E then panel
      else
        let flags = sp_flags panel ! nat idecks;
            desired = (if sel then ICON_SELECTED else 0) + (if dim then ICON_DIM else 0)
        in if flags = desired \<and> \<not> force then panel
           else panel\<lparr>sp_flags := (sp_flags panel)[nat idecks := desired]\<rparr>)"

text \<open>The repaint loop of \<open>scrollIcons\<close>, for \<open>i\<close> from the first visible tile on.\<close>

fun scrollIcons_repaint :: "wenv \<Rightarrow> nat \<Rightarrow> int \<Rightarrow> WSwitchPanel \<Rightarrow> WSwitchPanel" where
  "scrollIcons_repaint E 0 i panel = panel"
| "scrollIcons_repaint E (Suc n) i panel =
     (if i = current panel then scrollIcons_repaint E n (i + 1) panel
      else
        let dim = ((sp_flags panel ! nat i) div ICON_DIM) mod 2 = 1
        in scrollIcons_repaint E n (i + 1) (changeImage E panel i False dim True))"

definition scrollIcons :: "wenv \<Rightarrow> WSwitchPanel \<Rightarrow> int \<Rightarrow> WSwitchPanel" where
  "scrollIcons E panel delta =
     (let nfirst0 = firstVisible panel + delta;
          count = int (length (sp_windows panel))
      in if count \<le> visibleCount panel then panel
         else
           let nfirst = (if nfirst0 < 0 then 0
                         else if nfirst0 \<ge> count - visibleCount panel
                         then count - visibleCount panel
                         else nfirst0)
           in if nfirst = firstVisible panel then panel
              else scrollIcons_repaint E (nat (visibleCount panel)) nfirst
                     (panel\<lparr>firstVisible := nfirst\<rparr>))"

text \<open>\<open>makeWindowListArray\<close>: one window per application, or the windows of one class.\<close>

fun app_windows_list :: "wapplication list \<Rightarrow> wwindow list" where
  "app_windows_list [] = []"
| "app_windows_list (wapp # rest) =
     (let w = (if app_is_gnustep wapp then
                 (case menu_win wapp of Some m \<Rightarrow> Some m | None \<Rightarrow> Some (main_window_desc wapp))
               else if length (app_windows wapp) > 0 then
                 (case last_focused wapp of Some l \<Rightarrow> Some l | None \<Rightarrow> Some (app_windows wapp ! 0))
               else None)
      in (case w of Some x \<Rightarrow> x # app_windows_list rest | None \<Rightarrow> app_windows_list rest))"

fun class_windows_list :: "wenv \<Rightarrow> wscreen \<Rightarrow> bool \<Rightarrow> wwindow \<Rightarrow> wwindow list \<Rightarrow> wwindow list" where
  "class_windows_list E scr include_unmapped focused [] = []"
| "class_windows_list E scr include_unmapped focused (wwin # rest) =
     (if canReceiveFocus E scr wwin \<noteq> 0
         \<and> (mapped wwin \<or> shaded wwin \<or> include_unmapped)
         \<and> \<not> skip_switchpanel wwin
      then (if \<not> sameWindowClass focused wwin
            then class_windows_list E scr include_unmapped focused rest
            else wwin # class_windows_list E scr include_unmapped focused rest)
      else class_windows_list E scr include_unmapped focused rest)"

definition makeWindowListArray :: "wenv \<Rightarrow> wscreen \<Rightarrow> bool \<Rightarrow> bool \<Rightarrow> wwindow list" where
  "makeWindowListArray E scr include_unmapped class_only =
     (if \<not> class_only then app_windows_list (wapp_list scr)
      else (case windows scr of
              [] \<Rightarrow> []
            | focused # _ \<Rightarrow> class_windows_list E scr include_unmapped focused (windows scr)))"

definition makeWindowFlagsArray :: "nat \<Rightarrow> int list" where
  "makeWindowFlagsArray count = replicate count 0"

text \<open>
  \<open>CFArrayGetFirstIndexOfValue\<close> on an array without callbacks compares the stored
  pointers, and answers \<open>kCFNotFound\<close>, which is \<open>-1\<close>, when none is equal.
\<close>

fun first_index_from :: "int \<Rightarrow> wwindow list \<Rightarrow> nat option \<Rightarrow> int" where
  "first_index_from i [] v = - 1"
| "first_index_from i (w # ws) v =
     (if v = Some (self w) then i else first_index_from (i + 1) ws v)"

definition CFArrayGetFirstIndexOfValue :: "wwindow list \<Rightarrow> nat option \<Rightarrow> int" where
  "CFArrayGetFirstIndexOfValue ws v = first_index_from 0 ws v"

fun force_all_images :: "wenv \<Rightarrow> nat \<Rightarrow> int \<Rightarrow> WSwitchPanel \<Rightarrow> WSwitchPanel" where
  "force_all_images E 0 i panel = panel"
| "force_all_images E (Suc n) i panel =
     force_all_images E n (i + 1) (changeImage E panel i False False True)"

text \<open>
  \<open>wInitSwitchPanel\<close>. \<open>alloc\<close> is the structure as \<open>wmalloc\<close> hands it over
  (\<open>wmalloc\<close> is not in these files, and \<open>firstVisible\<close> is never assigned here); the
  function assigns \<open>windows\<close>, \<open>flags\<close> and \<open>visibleCount\<close>, and, only on the path that
  draws the panel, \<open>win\<close> and \<open>current\<close>. \<open>curwin\<close> is the address of the hinted window,
  \<open>None\<close> for \<open>NULL\<close>. The result is \<open>None\<close> where the source returns \<open>NULL\<close>. In
  \<open>width > rect.size.width\<close> and in \<open>(rect.size.width - SCREEN_BORDER_SPACING) /
  ICON_TILE_SIZE\<close> the \<open>int\<close> operands are converted to \<open>unsigned int\<close>: on a head
  narrower than the border spacing the subtraction wraps.
\<close>

definition wInitSwitchPanel :: "wenv \<Rightarrow> WSwitchPanel \<Rightarrow> wscreen \<Rightarrow> nat option \<Rightarrow> bool \<Rightarrow> WSwitchPanel option" where
  "wInitSwitchPanel E alloc scr curwin class_only =
     (let wins = makeWindowListArray E scr (swtileImage E) class_only;
          win_count = int (length wins);
          panel0 = alloc\<lparr>sp_windows := wins\<rparr>;
          panel1 = (if win_count \<noteq> 0
                    then panel0\<lparr>sp_flags := makeWindowFlagsArray (nat win_count)\<rparr>
                    else panel0)
      in if win_count = 0 then None
         else
           let width = ICON_TILE_SIZE * win_count;
               rect_width = uint32 (head_width scr);
               iconsThatFitCount =
                 (if uint32 width > rect_width
                  then uint32 (rect_width - SCREEN_BORDER_SPACING) div ICON_TILE_SIZE
                  else win_count);
               panel2 = panel1\<lparr>visibleCount := iconsThatFitCount\<rparr>
           in if \<not> swtileImage E then Some panel2
              else
                let panel3 = force_all_images E (nat win_count) 0 (panel2\<lparr>sp_has_win := True\<rparr>);
                    panel4 = (if win_count > 0 then
                                (let p = panel3\<lparr>current := CFArrayGetFirstIndexOfValue wins curwin\<rparr>
                                 in if current p \<ge> 0 then changeImage E p (current p) True False False
                                    else p)
                              else panel3)
                in Some panel4)"

subsection \<open>Advancing the selection\<close>










text \<open>
  The loop that resets the tiles other than the selected one; \<open>dim\<close> records whether
  the tile of \<open>orig\<close> is to be dimmed.
\<close>

fun selectNext_tiles :: "wenv \<Rightarrow> bool \<Rightarrow> int \<Rightarrow> wwindow \<Rightarrow> wwindow list \<Rightarrow> int \<Rightarrow> WSwitchPanel \<times> bool \<Rightarrow> WSwitchPanel \<times> bool" where
  "selectNext_tiles E class_only orig curwin [] i (panel, dim) = (panel, dim)"
| "selectNext_tiles E class_only orig curwin (tmpwin # rest) i (panel, dim) =
     (if i = current panel then selectNext_tiles E class_only orig curwin rest (i + 1) (panel, dim)
      else if \<not> class_only \<or> sameWindowClass tmpwin curwin
      then selectNext_tiles E class_only orig curwin rest (i + 1)
             (changeImage E panel i False False False, dim)
      else selectNext_tiles E class_only orig curwin rest (i + 1)
             (changeImage E panel i False True False, (if i = orig then True else dim)))"





section \<open>The workspace engine (workspace.c)\<close>

text \<open>
  What the engine calls in other files of the window manager. \<open>ProcessPendingEvents\<close>
  (event.c) dispatches whatever events are queued, so its effect on the screen is any
  function; its handlers may call back into the engine, and the handlers that do are
  modelled below, after the transition. \<open>wWindowMap\<close>,
  \<open>wWindowUnmap\<close> and \<open>wWindowChangeWorkspace\<close> (window.c) act on one window, and
  \<open>wDockCreate\<close> (dock.c) makes a workspace's clip. \<open>wSetFocusTo\<close> and
  \<open>_postNotification\<close> are logged in \<open>calls\<close>. The menus, the icon arrangement and
  what is painted are not part of the model.
\<close>

record externals =
  ProcessPendingEvents :: "wscreen \<Rightarrow> wscreen"
  wWindowMap :: "wwindow \<Rightarrow> wwindow"
  wWindowUnmap :: "wwindow \<Rightarrow> wwindow"
  wWindowChangeWorkspace :: "wwindow \<Rightarrow> int \<Rightarrow> wwindow"
  wDockCreate :: wdock

text \<open>Sequencing of steps that may fail: the first error ends the call.\<close>

definition and_then :: "error + 'a \<Rightarrow> ('a \<Rightarrow> error + 'b) \<Rightarrow> error + 'b" where
  "and_then r f = (case r of Inl e \<Rightarrow> Inl e | Inr x \<Rightarrow> f x)"

subsection \<open>Names\<close>

fun string_of_nat :: "nat \<Rightarrow> string" where
  "string_of_nat n =
     (if n < 10 then [''0123456789'' ! n]
      else string_of_nat (n div 10) @ [''0123456789'' ! (n mod 10)])"

definition string_of_int :: "int \<Rightarrow> string" where
  "string_of_int i = (if i < 0 then CHR ''-'' # string_of_nat (nat (- i)) else string_of_nat (nat i))"

text \<open>
  \<open>snprintf(buf, size, "Workspace %i", n)\<close>: at most \<open>size - 1\<close> characters are
  written. The format is the untranslated one.
\<close>

definition snprintf_Workspace :: "nat \<Rightarrow> int \<Rightarrow> string" where
  "snprintf_Workspace sz n = take (sz - 1) (''Workspace '' @ string_of_int n)"

definition isspace :: "char \<Rightarrow> bool" where
  "isspace c = (c = CHR '' '' \<or> c = CHR 0x09 \<or> c = CHR 0x0A \<or> c = CHR 0x0B
                \<or> c = CHR 0x0C \<or> c = CHR 0x0D)"

text \<open>
  Modelled from the spec: \<open>wtrimspace\<close> (core/string_utils.c is not among the
  sources) "trims surrounding whitespace"; it returns a fresh string.
\<close>

definition wtrimspace :: "string \<Rightarrow> string" where
  "wtrimspace s = rev (dropWhile isspace (rev (dropWhile isspace s)))"

subsection \<open>Creating and renaming workspaces\<close>

definition wWorkspaceNew :: "wenv \<Rightarrow> externals \<Rightarrow> wscreen \<Rightarrow> int \<times> wscreen" where
  "wWorkspaceNew E X scr =
     (if workspace_count scr < MAX_WORKSPACES E then
        (let count = workspace_count scr + 1;
             name_length = length ''Workspace %i'' + 8;
             wspace = \<lparr>name = snprintf_Workspace name_length count,
                       clip = (if \<not> noclip E then Some (wDockCreate X) else None),
                       focused_window = None\<rparr>
         in (count - 1,
             scr\<lparr>workspaces := workspaces scr @ [wspace],
                  calls := calls scr @ [PostNotification WMDidCreateWorkspaceNotification (count - 1)]\<rparr>))
      else (- 1, scr))"

fun wWorkspaceMake :: "wenv \<Rightarrow> externals \<Rightarrow> wscreen \<Rightarrow> nat \<Rightarrow> wscreen" where
  "wWorkspaceMake E X scr 0 = scr"
| "wWorkspaceMake E X scr (Suc count) = wWorkspaceMake E X (snd (wWorkspaceNew E X scr)) count"

text \<open>
  \<open>wWorkspaceRename\<close>. \<open>strncpy\<close> followed by \<open>buf[MAX_WORKSPACENAME_WIDTH] = 0\<close>
  keeps at most that many characters. A negative index would read before the array.
\<close>

definition wWorkspaceRename :: "wenv \<Rightarrow> wscreen \<Rightarrow> int \<Rightarrow> string \<Rightarrow> error + wscreen" where
  "wWorkspaceRename E scr workspace raw =
     (if workspace \<ge> workspace_count scr then Inr scr
      else if workspace < 0 then Inl OutOfBounds
      else
        let tmp = wtrimspace raw;
            buf0 = (if length tmp = 0
                    then snprintf_Workspace (MAX_WORKSPACENAME_WIDTH E + 1) (workspace + 1)
                    else take (MAX_WORKSPACENAME_WIDTH E) tmp);
            buf = take (MAX_WORKSPACENAME_WIDTH E) buf0
        in Inr (scr\<lparr>workspaces := (workspaces scr)
                          [nat workspace := (workspaces scr ! nat workspace)\<lparr>name := buf\<rparr>],
                    calls := calls scr
                          @ [PostNotification WMDidChangeWorkspaceNameNotification workspace]\<rparr>))"

subsection \<open>Changing the workspace\<close>

definition wWorkspaceSaveFocusedWindow :: "wscreen \<Rightarrow> int \<Rightarrow> wwindow option \<Rightarrow> error + wscreen" where
  "wWorkspaceSaveFocusedWindow scr workspace wwin =
     (if workspace < 0 \<or> workspace \<ge> workspace_count scr then Inl OutOfBounds
      else
        let saved = (case wwin of
                       Some w \<Rightarrow> Some \<lparr>saved_class = wm_class w, saved_instance = wm_instance w,
                                        saved_client_win = client_win w\<rparr>
                     | None \<Rightarrow> None)
        in Inr (scr\<lparr>workspaces := (workspaces scr)
                  [nat workspace := (workspaces scr ! nat workspace)\<lparr>focused_window := saved\<rparr>]\<rparr>))"

text \<open>\<open>wApplicationOf(tmp->main_window)\<close>, then \<open>wapp->last_workspace = workspace\<close>.\<close>

fun set_app_last_workspace :: "nat \<Rightarrow> int \<Rightarrow> wapplication list \<Rightarrow> wapplication list" where
  "set_app_last_workspace mw workspace [] = []"
| "set_app_last_workspace mw workspace (wapp # rest) =
     (if app_main_window wapp = mw then wapp\<lparr>app_last_workspace := workspace\<rparr> # rest
      else wapp # set_app_last_workspace mw workspace rest)"

text \<open>
  The locals of the traversal. The lists hold positions in the window list. \<open>foc\<close> is
  kept as the window id its pointer leads to: the id is fixed while the window is
  managed, and it is the only field read through \<open>foc\<close> before \<open>foc\<close> is looked up
  again.
\<close>

record partition_acc =
  toUnmap :: "nat list"
  toMap :: "nat list"
  foc :: "nat option"
  p_apps :: "wapplication list"

definition partition_window :: "wenv \<Rightarrow> externals \<Rightarrow> int \<Rightarrow> nat \<Rightarrow> wwindow \<Rightarrow> partition_acc \<Rightarrow> error + (wwindow \<times> partition_acc)" where
  "partition_window E X workspace i tmp acc =
     (case frame_workspace tmp of
        None \<Rightarrow> Inl NullDereference
      | Some fw \<Rightarrow>
          if fw \<noteq> workspace \<and> \<not> selected tmp then
            (let (tmp1, acc1) =
                   (if \<not> omnipresent tmp then
                      (tmp, if (mapped tmp \<or> shaded tmp) \<and> \<not> changing_workspace tmp
                            then acc\<lparr>toUnmap := toUnmap acc @ [i]\<rparr> else acc)
                    else
                      (tmp\<lparr>frame_workspace := Some workspace\<rparr>,
                       if window_level tmp \<noteq> NSMainMenuWindowLevel E
                       then acc\<lparr>p_apps := set_app_last_workspace (main_window tmp) workspace (p_apps acc)\<rparr>
                       else acc));
                 tmp2 = (if \<not> sticky_icons E \<and> miniaturized tmp1 \<and> icon_mapped tmp1 \<noteq> None
                            \<and> \<not> omnipresent tmp1
                         then tmp1\<lparr>icon_mapped := Some False\<rparr> else tmp1)
             in Inr (tmp2, acc1))
          else if selected tmp then
            (let tmp1 = wWindowChangeWorkspace X tmp workspace
             in Inr (tmp1, if \<not> miniaturized tmp1 \<and> foc acc = None
                           then acc\<lparr>foc := Some (client_win tmp1)\<rparr> else acc))
          else if \<not> hidden tmp then
            (let acc1 = (if \<not> (mapped tmp \<or> miniaturized tmp)
                         then acc\<lparr>toMap := toMap acc @ [i]\<rparr> else acc);
                 tmp1 = (if \<not> sticky_icons E \<and> miniaturized tmp \<and> \<not> omnipresent tmp
                            \<and> icon_mapped tmp \<noteq> None
                         then tmp\<lparr>icon_mapped := Some True\<rparr> else tmp)
             in Inr (tmp1, acc1))
          else Inr (tmp, acc))"

fun partition_loop :: "wenv \<Rightarrow> externals \<Rightarrow> int \<Rightarrow> nat \<Rightarrow> wwindow list \<Rightarrow> partition_acc \<Rightarrow> error + (wwindow list \<times> partition_acc)" where
  "partition_loop E X workspace i [] acc = Inr ([], acc)"
| "partition_loop E X workspace i (tmp # rest) acc =
     and_then (partition_window E X workspace i tmp acc) (\<lambda>(tmp', acc').
       and_then (partition_loop E X workspace (Suc i) rest acc') (\<lambda>(rest', acc'').
         Inr (tmp' # rest', acc'')))"

text \<open>\<open>while (count > 0) f(queue[--count])\<close>: the window queued last is treated first.\<close>

definition apply_queue :: "(wwindow \<Rightarrow> wwindow) \<Rightarrow> nat list \<Rightarrow> wwindow list \<Rightarrow> wwindow list" where
  "apply_queue f queue ws = fold (\<lambda>i ws'. ws'[i := f (ws' ! i)]) (rev queue) ws"

text \<open>
  \<open>wWorkspaceForceChange\<close> in its steps. \<open>fc_begin\<close>: grow, save the focused window
  of the workspace that is left, set \<open>last_workspace\<close> and \<open>current_workspace\<close>.
\<close>

definition fc_begin :: "wenv \<Rightarrow> externals \<Rightarrow> wscreen \<Rightarrow> int \<Rightarrow> error + wscreen" where
  "fc_begin E X scr workspace =
     (let scr1 = (if workspace > workspace_count scr - 1
                  then wWorkspaceMake E X scr (nat (workspace - workspace_count scr + 1))
                  else scr)
      in and_then
           (case windows scr1 of
              [] \<Rightarrow> Inr None
            | focused # _ \<Rightarrow>
                (case frame_workspace focused of
                   None \<Rightarrow> Inl NullDereference
                 | Some fw \<Rightarrow> Inr (if fw = current_workspace scr1 then Some focused else None)))
           (\<lambda>to_save.
              and_then (wWorkspaceSaveFocusedWindow scr1 (current_workspace scr1) to_save)
                (\<lambda>scr2. Inr (scr2\<lparr>last_workspace := current_workspace scr2,
                                    current_workspace := workspace\<rparr>))))"

text \<open>\<open>fc_partition\<close>: the traversal, then the unmaps, then the maps.\<close>

definition fc_partition :: "wenv \<Rightarrow> externals \<Rightarrow> wscreen \<Rightarrow> int \<Rightarrow> error + (wscreen \<times> nat option)" where
  "fc_partition E X scr workspace =
     and_then (partition_loop E X workspace 0 (windows scr)
                 \<lparr>toUnmap = [], toMap = [], foc = None, p_apps = wapp_list scr\<rparr>)
       (\<lambda>(ws, acc).
          let ws1 = apply_queue (wWindowUnmap X) (toUnmap acc) ws;
              ws2 = apply_queue (wWindowMap X) (toMap acc) ws1
          in Inr (scr\<lparr>windows := ws2, wapp_list := p_apps acc\<rparr>, foc acc))"

text \<open>\<open>fc_flush\<close>: the pending events, with their focus effects to be ignored.\<close>

definition fc_flush :: "externals \<Rightarrow> wscreen \<Rightarrow> wscreen" where
  "fc_flush X scr =
     (ProcessPendingEvents X (scr\<lparr>ignore_focus_events := True\<rparr>))\<lparr>ignore_focus_events := False\<rparr>"

text \<open>
  \<open>fc_focus\<close>: the window to focus is chosen, looked up again among the windows that
  exist now, dropped if hidden, and handed to \<open>wSetFocusTo\<close>.
\<close>

definition fc_focus :: "wscreen \<Rightarrow> int \<Rightarrow> wwindow option \<Rightarrow> nat option \<Rightarrow> error + wscreen" where
  "fc_focus scr workspace focus_win foc0 =
     (let foc1 = (case focus_win of Some f \<Rightarrow> Some (client_win f) | None \<Rightarrow> foc0)
      in and_then
           (case foc1 of
              Some w \<Rightarrow> Inr (Some w)
            | None \<Rightarrow>
                if workspace < 0 \<or> workspace \<ge> workspace_count scr then Inl OutOfBounds
                else Inr (map_option saved_client_win
                            (focused_window (workspaces scr ! nat workspace))))
           (\<lambda>foc2.
              let foc3 = (case foc2 of
                            None \<Rightarrow> None
                          | Some w \<Rightarrow> find (\<lambda>parse. client_win parse = w) (windows scr));
                  foc4 = (case foc3 of
                            None \<Rightarrow> None
                          | Some w \<Rightarrow> if hidden w then None else Some w)
              in Inr (scr\<lparr>calls := calls scr @ [SetFocusTo foc4]\<rparr>)))"

text \<open>
  \<open>fc_finish\<close>: the clip of the new workspace and its name are read, then
  \<open>last_workspace\<close> is set and the change is announced.
\<close>

definition fc_finish :: "wenv \<Rightarrow> wscreen \<Rightarrow> int \<Rightarrow> error + wscreen" where
  "fc_finish E scr workspace =
     (if workspace < 0 \<or> workspace \<ge> workspace_count scr then Inl OutOfBounds
      else if \<not> noclip E \<and> clip (workspaces scr ! nat workspace) = None then Inl NullDereference
      else Inr (scr\<lparr>last_workspace := workspace,
                    calls := calls scr
                      @ [PostNotification WMDidChangeWorkspaceNotification workspace]\<rparr>))"

text \<open>
  The screen at the point where the transition has just cleared \<open>ignore_focus_events\<close>
  again, for a screen with a managed window.
\<close>

definition fc_until_flush :: "wenv \<Rightarrow> externals \<Rightarrow> wscreen \<Rightarrow> int \<Rightarrow> error + wscreen" where
  "fc_until_flush E X scr workspace =
     and_then (fc_begin E X scr workspace) (\<lambda>scr1.
       and_then (fc_partition E X scr1 workspace) (\<lambda>(scr2, foc0). Inr (fc_flush X scr2)))"

definition wWorkspaceForceChange :: "wenv \<Rightarrow> externals \<Rightarrow> wscreen \<Rightarrow> int \<Rightarrow> wwindow option \<Rightarrow> error + wscreen" where
  "wWorkspaceForceChange E X scr workspace focus_win =
     (if workspace \<ge> MAX_WORKSPACES E \<or> workspace < 0 \<or> workspace = current_workspace scr
      then Inr scr
      else
        and_then (fc_begin E X scr workspace) (\<lambda>scr1.
          and_then
            (if windows scr1 \<noteq> [] then
               and_then (fc_partition E X scr1 workspace) (\<lambda>(scr2, foc0).
                 fc_focus (fc_flush X scr2) workspace focus_win foc0)
             else Inr scr1)
            (\<lambda>scr3. fc_finish E scr3 workspace)))"

definition wWorkspaceChange :: "wenv \<Rightarrow> externals \<Rightarrow> wscreen \<Rightarrow> int \<Rightarrow> wwindow option \<Rightarrow> error + wscreen" where
  "wWorkspaceChange E X scr workspace focus_win =
     (if startup scr \<or> startup2 scr \<or> ignore_focus_events scr then Inr scr
      else if workspace \<noteq> current_workspace scr
      then wWorkspaceForceChange E X scr workspace focus_win
      else Inr scr)"

subsection \<open>The pending events (event.c)\<close>

text \<open>
  \<open>ProcessPendingEvents\<close> takes the events that are queued, one after the other, and
  passes each on (\<open>WMHandleEvent\<close>) to be handed to its handler by \<open>DispatchEvent\<close>.
  Two kinds of handler touch what a transition depends on. Some call
  \<open>wWorkspaceChange(scr, workspace, focus_win)\<close> with an index that they have
  computed: the workspace shortcuts of \<open>handleKeyPress\<close> and \<open>handleMapRequest\<close> do,
  with \<open>NULL\<close> for \<open>focus_win\<close>. And the branch of \<open>handleClientMessage\<close> for the
  message \<open>ignore_focus_events\<close> sets \<open>scr->flags.ignore_focus_events\<close> to whether
  \<open>data.l[0]\<close> is not zero. Every other handler is some function on the screen.

  \<open>events\<close> are the events that one call of \<open>ProcessPendingEvents\<close> handles, and
  \<open>X\<close> are the collaborators of a transition that one of its handlers starts: the
  \<open>ProcessPendingEvents\<close> of \<open>X\<close> handles what is queued when that transition
  flushes. The flush of the collaborators is a total function, so a transition that
  fails inside a handler, where the window manager has crashed, is not represented: the
  screen is left as the handler found it.
\<close>

datatype xevent =
  WorkspaceRequest int "wwindow option"
  | IgnoreFocusEventsMessage int
  | OtherEvent "wscreen \<Rightarrow> wscreen"

definition DispatchEvent :: "wenv \<Rightarrow> externals \<Rightarrow> xevent \<Rightarrow> wscreen \<Rightarrow> wscreen" where
  "DispatchEvent E X event scr =
     (case event of
        WorkspaceRequest workspace focus_win \<Rightarrow>
          (case wWorkspaceChange E X scr workspace focus_win of
             Inr scr' \<Rightarrow> scr'
           | Inl e \<Rightarrow> scr)
      | IgnoreFocusEventsMessage l0 \<Rightarrow> scr\<lparr>ignore_focus_events := (l0 \<noteq> 0)\<rparr>
      | OtherEvent handler \<Rightarrow> handler scr)"

fun ProcessPendingEvents_queue :: "wenv \<Rightarrow> externals \<Rightarrow> xevent list \<Rightarrow> wscreen \<Rightarrow> wscreen" where
  "ProcessPendingEvents_queue E X [] scr = scr"
| "ProcessPendingEvents_queue E X (event # events) scr =
     ProcessPendingEvents_queue E X events (DispatchEvent E X event scr)"


subsection \<open>Deleting a workspace\<close>

fun workspace_in_use :: "wwindow list \<Rightarrow> int \<Rightarrow> error + bool" where
  "workspace_in_use [] workspace = Inr False"
| "workspace_in_use (tmp # rest) workspace =
     (if \<not> omnipresent tmp then
        (case frame_workspace tmp of
           None \<Rightarrow> Inl NullDereference
         | Some fw \<Rightarrow> if fw = workspace then Inr True else workspace_in_use rest workspace)
      else workspace_in_use rest workspace)"

text \<open>
  The loop that fills the new array: \<open>if (i != workspace-1) list[j++] = workspaces[i]\<close>,
  for \<open>i\<close> from the given index on.
\<close>

fun delete_copy :: "int \<Rightarrow> int \<Rightarrow> wworkspace list \<Rightarrow> wworkspace list" where
  "delete_copy workspace i [] = []"
| "delete_copy workspace i (w # rest) =
     (if i \<noteq> workspace - 1 then w # delete_copy workspace (i + 1) rest
      else delete_copy workspace (i + 1) rest)"

text \<open>
  \<open>wWorkspaceDelete\<close>. The new array has \<open>workspace_count - 1\<close> slots: when no index
  is left out the loop writes past its end, and \<open>workspaces[workspace]->clip\<close> reads
  past the old one when \<open>workspace\<close> is the count or more.
\<close>

definition wWorkspaceDelete :: "wenv \<Rightarrow> externals \<Rightarrow> wscreen \<Rightarrow> int \<Rightarrow> error + (bool \<times> wscreen)" where
  "wWorkspaceDelete E X scr workspace =
     (if workspace \<le> 0 then Inr (False, scr)
      else
        and_then (workspace_in_use (windows scr) workspace) (\<lambda>used.
          if used then Inr (False, scr)
          else if \<not> noclip E \<and> workspace \<ge> workspace_count scr then Inl OutOfBounds
          else if workspace - 1 \<ge> workspace_count scr then Inl OutOfBounds
          else
            let wss = (if \<not> noclip E
                       then (workspaces scr)
                              [nat workspace := (workspaces scr ! nat workspace)\<lparr>clip := None\<rparr>]
                       else workspaces scr);
                scr1 = scr\<lparr>workspaces := delete_copy workspace 0 wss\<rparr>;
                scr2 = scr1\<lparr>calls := calls scr1
                          @ [PostNotification WMDidDestroyWorkspaceNotification
                               (workspace_count scr1 - 1)]\<rparr>
            in and_then
                 (if current_workspace scr2 \<ge> workspace_count scr2
                  then wWorkspaceChange E X scr2 (workspace_count scr2 - 1) None
                  else Inr scr2)
                 (\<lambda>scr3. Inr (True, if last_workspace scr3 \<ge> workspace_count scr3
                                    then scr3\<lparr>last_workspace := 0\<rparr> else scr3))))"

subsection \<open>What the traversal queues\<close>

text \<open>
  The conditions under which the traversal puts a window on its unmap list and on its
  map list, read off \<open>wWorkspaceForceChange\<close>, and the positions of the windows of a
  list that satisfy a condition, counted from \<open>i\<close>.
\<close>

definition queued_for_unmap :: "int \<Rightarrow> wwindow \<Rightarrow> bool" where
  "queued_for_unmap workspace tmp =
     (frame_workspace tmp \<noteq> Some workspace \<and> \<not> selected tmp \<and> \<not> omnipresent tmp
      \<and> (mapped tmp \<or> shaded tmp) \<and> \<not> changing_workspace tmp)"

definition queued_for_map :: "int \<Rightarrow> wwindow \<Rightarrow> bool" where
  "queued_for_map workspace tmp =
     (frame_workspace tmp = Some workspace \<and> \<not> selected tmp \<and> \<not> hidden tmp
      \<and> \<not> (mapped tmp \<or> miniaturized tmp))"

fun positions :: "(wwindow \<Rightarrow> bool) \<Rightarrow> nat \<Rightarrow> wwindow list \<Rightarrow> nat list" where
  "positions P i [] = []"
| "positions P i (w # ws) = (if P w then i # positions P (Suc i) ws else positions P (Suc i) ws)"

subsection \<open>The new focus, in the spec's words\<close>

text \<open>
  Step 6 of the spec's transition: "prefer an explicit caller-supplied focus target;
  else the first selected-and-moved window found in step 3; else the target workspace's
  saved last-focused snapshot", the choice being "re-validated against the current
  registry (by matching handle/id)", and "if not found or now hidden, fall back to no
  focus". \<open>moved\<close> is the window found in step 3, if any.
\<close>

definition spec_resolve_focus :: "wwindow list \<Rightarrow> saved_window option \<Rightarrow> wwindow option \<Rightarrow> wwindow option \<Rightarrow> wwindow option" where
  "spec_resolve_focus registry snapshot explicit moved =
     (let chosen = (case explicit of
                      Some f \<Rightarrow> Some (client_win f)
                    | None \<Rightarrow>
                        (case moved of
                           Some m \<Rightarrow> Some (client_win m)
                         | None \<Rightarrow> map_option saved_client_win snapshot))
      in case chosen of
           None \<Rightarrow> None
         | Some w \<Rightarrow>
             (case find (\<lambda>live. client_win live = w) registry of
                None \<Rightarrow> None
              | Some live \<Rightarrow> if hidden live then None else Some live))"

section \<open>Example data\<close>

definition ex_window :: wwindow where
  "ex_window = \<lparr>self = 0, client_win = 0, wm_class = Some ''XTerm'', wm_instance = ''xterm'',
     frame_workspace = Some 0, head = 0, mapped = True, shaded = False, miniaturized = False,
     hidden = False, selected = False, changing_workspace = False, is_gnustep = False,
     omnipresent = False, no_focusable = False, skip_switchpanel = False,
     icon_mapped = None, main_window = 0, window_level = 0\<rparr>"

definition ex_win :: "nat \<Rightarrow> string \<Rightarrow> wwindow" where
  "ex_win n c = ex_window\<lparr>self := n, client_win := n, wm_class := Some c\<rparr>"

definition ex_env :: wenv where
  "ex_env = \<lparr>swtileImage = True, cycle_ignore_minimized = True, cycle_active_head_only = False,
     sticky_icons = False, noclip = True, MAX_WORKSPACES = 100, MAX_WORKSPACENAME_WIDTH = 64,
     NSMainMenuWindowLevel = 20\<rparr>"

definition ex_workspace :: "string \<Rightarrow> wworkspace" where
  "ex_workspace n = \<lparr>name = n, clip = None, focused_window = None\<rparr>"

definition ex_screen :: wscreen where
  "ex_screen = \<lparr>startup = False, startup2 = False, ignore_focus_events = False,
     workspaces = [ex_workspace ''Workspace 1'', ex_workspace ''Workspace 2'', ex_workspace ''Workspace 3''],
     current_workspace = 0, last_workspace = 0, windows = [],
     wapp_list = [], pointer_head = 0, head_width = 1024, calls = []\<rparr>"

definition ex_alloc :: WSwitchPanel where
  "ex_alloc = \<lparr>sp_windows = [], sp_flags = [], sp_has_win = False, current = 0,
     firstVisible = 0, visibleCount = 0\<rparr>"

definition ex_panel :: "wwindow list \<Rightarrow> WSwitchPanel" where
  "ex_panel ws = \<lparr>sp_windows = ws, sp_flags = replicate (length ws) 0, sp_has_win = True,
     current = 0, firstVisible = 0, visibleCount = int (length ws)\<rparr>"

definition ex_hint_screen :: wscreen where
  "ex_hint_screen = ex_screen\<lparr>windows :=
     [(ex_win 1 ''XTerm'')\<lparr>skip_switchpanel := True\<rparr>, ex_win 2 ''XTerm'', ex_win 3 ''XTerm'']\<rparr>"

text \<open>
  Modelled from the spec: \<open>wWindowMap\<close>, \<open>wWindowUnmap\<close> and
  \<open>wWindowChangeWorkspace\<close> (window.c is not among the sources). The spec's
  transition "applies unmaps then maps" to the windows it queued, and a selected window
  is "moved to the target workspace outright and queued for mapping".
\<close>

definition spec_wWindowMap :: "wwindow \<Rightarrow> wwindow" where
  "spec_wWindowMap w = w\<lparr>mapped := True\<rparr>"

definition spec_wWindowUnmap :: "wwindow \<Rightarrow> wwindow" where
  "spec_wWindowUnmap w = w\<lparr>mapped := False\<rparr>"

definition spec_wWindowChangeWorkspace :: "wwindow \<Rightarrow> int \<Rightarrow> wwindow" where
  "spec_wWindowChangeWorkspace w k = w\<lparr>frame_workspace := Some k, mapped := True\<rparr>"

text \<open>The collaborators of the examples; no event is pending.\<close>

definition ex_ext :: externals where
  "ex_ext = \<lparr>ProcessPendingEvents = (\<lambda>scr. scr), wWindowMap = spec_wWindowMap,
     wWindowUnmap = spec_wWindowUnmap, wWindowChangeWorkspace = spec_wWindowChangeWorkspace,
     wDockCreate = \<lparr>auto_collapse = False, auto_raise_lower = False\<rparr>\<rparr>"

definition ex_used_screen :: wscreen where
  "ex_used_screen = ex_screen\<lparr>windows := [ex_win 1 ''XTerm'', (ex_win 2 ''XTerm'')\<lparr>frame_workspace := Some 2\<rparr>]\<rparr>"


text \<open>
  Collaborators with one event pending: its handler asks for workspace 2 through
  \<open>wWorkspaceChange\<close>, as the handler of a workspace shortcut does. And collaborators
  with two events pending: the client message that lowers \<open>ignore_focus_events\<close>, and
  then that request. No event is left for the transition that a request starts.
\<close>

definition ex_requesting_ext :: externals where
  "ex_requesting_ext = ex_ext\<lparr>ProcessPendingEvents :=
     ProcessPendingEvents_queue ex_env ex_ext [WorkspaceRequest 2 None]\<rparr>"

definition ex_lowering_ext :: externals where
  "ex_lowering_ext = ex_ext\<lparr>ProcessPendingEvents :=
     ProcessPendingEvents_queue ex_env ex_ext
       [IgnoreFocusEventsMessage 0, WorkspaceRequest 2 None]\<rparr>"

text \<open>
  An omnipresent window that is recorded on workspace 1 and not mapped, while workspace
  0 is current; and an omnipresent, mapped window on the current workspace next to an
  ordinary one.
\<close>

definition ex_omnipresent_unmapped_screen :: wscreen where
  "ex_omnipresent_unmapped_screen = ex_screen\<lparr>windows :=
     [(ex_win 1 ''XTerm'')\<lparr>omnipresent := True, frame_workspace := Some 1, mapped := False\<rparr>]\<rparr>"

definition ex_omnipresent_screen :: wscreen where
  "ex_omnipresent_screen = ex_screen\<lparr>windows :=
     [(ex_win 1 ''XClock'')\<lparr>omnipresent := True\<rparr>, ex_win 2 ''XTerm'']\<rparr>"

text \<open>
  Two selected windows, the first of them miniaturized, and a third window that is not
  selected.
\<close>

definition ex_selected_screen :: wscreen where
  "ex_selected_screen = ex_screen\<lparr>windows :=
     [(ex_win 1 ''XTerm'')\<lparr>selected := True, miniaturized := True, mapped := False\<rparr>,
      (ex_win 2 ''XTerm'')\<lparr>selected := True\<rparr>,
      ex_win 3 ''XTerm'']\<rparr>"

section \<open>Properties of the switch panel\<close>

lemmas ex_defs = ex_window_def ex_win_def ex_env_def ex_workspace_def ex_screen_def
  ex_alloc_def ex_panel_def

subsection \<open>What repainting leaves alone\<close>

lemma changeImage_frame [simp]:
  "current (changeImage E p i s d f) = current p"
  "sp_windows (changeImage E p i s d f) = sp_windows p"
  "sp_has_win (changeImage E p i s d f) = sp_has_win p"
  "firstVisible (changeImage E p i s d f) = firstVisible p"
  "visibleCount (changeImage E p i s d f) = visibleCount p"
  "length (sp_flags (changeImage E p i s d f)) = length (sp_flags p)"
  by (simp_all add: changeImage_def Let_def)

lemma scrollIcons_repaint_frame [simp]:
  "current (scrollIcons_repaint E n i p) = current p"
  "sp_windows (scrollIcons_repaint E n i p) = sp_windows p"
  "sp_has_win (scrollIcons_repaint E n i p) = sp_has_win p"
  "length (sp_flags (scrollIcons_repaint E n i p)) = length (sp_flags p)"
  by (induction E n i p rule: scrollIcons_repaint.induct) (simp_all add: Let_def)

lemma scrollIcons_frame [simp]:
  "current (scrollIcons E p d) = current p"
  "sp_windows (scrollIcons E p d) = sp_windows p"
  "sp_has_win (scrollIcons E p d) = sp_has_win p"
  "length (sp_flags (scrollIcons E p d)) = length (sp_flags p)"
  by (simp_all add: scrollIcons_def Let_def)

lemma selectNext_tiles_frame [simp]:
  "current (fst (selectNext_tiles E co orig curwin ws i pd)) = current (fst pd)"
  "sp_windows (fst (selectNext_tiles E co orig curwin ws i pd)) = sp_windows (fst pd)"
  "sp_has_win (fst (selectNext_tiles E co orig curwin ws i pd)) = sp_has_win (fst pd)"
  "length (sp_flags (fst (selectNext_tiles E co orig curwin ws i pd))) = length (sp_flags (fst pd))"
  by (induction E co orig curwin ws i pd rule: selectNext_tiles.induct) simp_all

lemma force_all_images_frame [simp]:
  "current (force_all_images E n i p) = current p"
  "sp_windows (force_all_images E n i p) = sp_windows p"
  "visibleCount (force_all_images E n i p) = visibleCount p"
  by (induction E n i p rule: force_all_images.induct) simp_all




subsection \<open>The selection loops\<close>










subsection \<open>Construction\<close>

lemma first_index_from_absent:
  "v \<notin> (\<lambda>w. Some (self w)) ` set ws \<Longrightarrow> first_index_from i ws v = - 1"
  by (induction ws arbitrary: i) auto

lemma first_index_from_present:
  "v \<in> (\<lambda>w. Some (self w)) ` set ws \<Longrightarrow>
     \<exists>k < length ws. first_index_from i ws v = i + int k
        \<and> Some (self (ws ! k)) = v \<and> (\<forall>j < k. Some (self (ws ! j)) \<noteq> v)"
proof (induction ws arbitrary: i)
  case Nil
  then show ?case by simp
next
  case (Cons w ws)
  show ?case
  proof (cases "v = Some (self w)")
    case True
    then show ?thesis by (intro exI [of _ 0]) simp
  next
    case False
    with Cons.prems have "v \<in> (\<lambda>w. Some (self w)) ` set ws" by auto
    from Cons.IH [OF this, of "i + 1"]
    obtain k where k: "k < length ws" "first_index_from (i + 1) ws v = i + 1 + int k"
      "Some (self (ws ! k)) = v" "\<forall>j < k. Some (self (ws ! j)) \<noteq> v"
      by blast
    have "\<forall>j < Suc k. Some (self ((w # ws) ! j)) \<noteq> v"
      using k(4) False by (auto simp: nth_Cons split: nat.splits)
    with k False show ?thesis by (intro exI [of _ "Suc k"]) simp
  qed
qed

text \<open>
  Claim C1, as the code has it. For a non-empty candidate list, construction yields a
  panel holding that list. On the path that draws the panel (a tile image is
  configured), \<open>current\<close> is the first index of the hinted window if it is in the
  list, and \<open>-1\<close> (not \<open>0\<close>) if it is not, so \<open>0 \<le> current < len\<close> holds
  after construction exactly when the hint is a candidate. Without a tile image the
  function returns before it assigns \<open>current\<close>, which stays as allocated.
\<close>

theorem wInitSwitchPanel_current:
  assumes "makeWindowListArray E scr (swtileImage E) class_only = ws" and "ws \<noteq> []"
  shows "\<exists>panel. wInitSwitchPanel E alloc scr curwin class_only = Some panel
          \<and> sp_windows panel = ws
          \<and> (if swtileImage E then
                (if curwin \<in> (\<lambda>w. Some (self w)) ` set ws
                 then 0 \<le> current panel \<and> current panel < int (length ws)
                      \<and> Some (self (ws ! nat (current panel))) = curwin
                      \<and> (\<forall>j < nat (current panel). Some (self (ws ! j)) \<noteq> curwin)
                 else current panel = - 1)
              else current panel = current alloc)"
proof (cases "swtileImage E")
  case False
  then show ?thesis
    using assms by (simp add: wInitSwitchPanel_def Let_def)
next
  case True
  have cur: "\<exists>panel. wInitSwitchPanel E alloc scr curwin class_only = Some panel
          \<and> sp_windows panel = ws \<and> current panel = first_index_from 0 ws curwin"
    using assms True
    by (simp add: wInitSwitchPanel_def Let_def CFArrayGetFirstIndexOfValue_def)
  show ?thesis
  proof (cases "curwin \<in> (\<lambda>w. Some (self w)) ` set ws")
    case absent: False
    then show ?thesis
      using cur True by (simp add: first_index_from_absent)
  next
    case present: True
    from first_index_from_present [OF this, of 0]
    obtain k where k: "k < length ws" "first_index_from 0 ws curwin = int k"
      "Some (self (ws ! k)) = curwin" "\<forall>j < k. Some (self (ws ! j)) \<noteq> curwin"
      by auto
    from cur obtain panel where p: "wInitSwitchPanel E alloc scr curwin class_only = Some panel"
      "sp_windows panel = ws" "current panel = int k"
      using k(2) by auto
    show ?thesis
      using p k True present by (intro exI [of _ panel]) simp
  qed
qed

lemma ex_env_swtileImage: "swtileImage ex_env"
  by (simp add: ex_env_def)

lemma ex_hint_list:
  "makeWindowListArray ex_env ex_hint_screen True True
     = [ex_win 2 ''XTerm'', ex_win 3 ''XTerm'']"
  by (simp add: makeWindowListArray_def ex_hint_screen_def ex_defs canReceiveFocus_def
      sameWindowClass_def)

text \<open>The theorem at a three-window screen whose hint is the second candidate.\<close>

theorem wInitSwitchPanel_current_witness:
  "\<exists>panel. wInitSwitchPanel ex_env ex_alloc ex_hint_screen (Some 3) True = Some panel
      \<and> sp_windows panel = [ex_win 2 ''XTerm'', ex_win 3 ''XTerm'']
      \<and> current panel = 1"
proof -
  have ne: "[ex_win 2 ''XTerm'', ex_win 3 ''XTerm''] \<noteq> []" by simp
  have ls: "makeWindowListArray ex_env ex_hint_screen (swtileImage ex_env) True
     = [ex_win 2 ''XTerm'', ex_win 3 ''XTerm'']"
    by (simp add: ex_env_swtileImage ex_hint_list)
  from wInitSwitchPanel_current [OF ls ne, of ex_alloc "Some 3"]
  obtain panel where p: "wInitSwitchPanel ex_env ex_alloc ex_hint_screen (Some 3) True = Some panel"
    "sp_windows panel = [ex_win 2 ''XTerm'', ex_win 3 ''XTerm'']"
    "Some (self ([ex_win 2 ''XTerm'', ex_win 3 ''XTerm''] ! nat (current panel))) = Some 3"
    "0 \<le> current panel" "current panel < 2"
    by (auto simp: ex_defs split: if_splits)
  have "current panel = 0 \<or> current panel = 1" using p(4,5) by linarith
  then have "current panel = 1" using p(3) by (auto simp: ex_defs)
  with p show ?thesis by blast
qed

text \<open>
  The focused window is flagged to be skipped by the panel, so it is the hint and not a
  candidate: \<open>current\<close> is \<open>-1\<close>, where claim C1 says \<open>0\<close>.
\<close>

theorem wInitSwitchPanel_hint_absent_counterexample:
  "map_option sp_windows (wInitSwitchPanel ex_env ex_alloc ex_hint_screen (Some 1) True)
     = Some [ex_win 2 ''XTerm'', ex_win 3 ''XTerm'']
   \<and> map_option current (wInitSwitchPanel ex_env ex_alloc ex_hint_screen (Some 1) True)
     = Some (- 1)"
  by (simp add: wInitSwitchPanel_def Let_def ex_hint_list ex_env_swtileImage
      CFArrayGetFirstIndexOfValue_def ex_win_def ex_window_def)

text \<open>
  Two candidates need 128 pixels. On a head 100 pixels wide no tile fits; on a head 39
  pixels wide, narrower than the border spacing, the unsigned subtraction wraps.
\<close>

lemma wInitSwitchPanel_narrow_head:
  "map_option visibleCount
     (wInitSwitchPanel ex_env ex_alloc (ex_hint_screen\<lparr>head_width := 100\<rparr>) (Some 3) True)
     = Some 0
   \<and> map_option visibleCount
     (wInitSwitchPanel ex_env ex_alloc (ex_hint_screen\<lparr>head_width := 39\<rparr>) (Some 3) True)
     = Some 67108863"
proof -
  have l: "makeWindowListArray ex_env (ex_hint_screen\<lparr>head_width := w\<rparr>) True True
     = [ex_win 2 ''XTerm'', ex_win 3 ''XTerm'']" for w
    by (simp add: makeWindowListArray_def ex_hint_screen_def ex_defs canReceiveFocus_def
        sameWindowClass_def)
  show ?thesis
    by (simp add: wInitSwitchPanel_def Let_def l ex_env_swtileImage uint32_def
        ICON_TILE_SIZE_def SCREEN_BORDER_SPACING_def CFArrayGetFirstIndexOfValue_def)
qed

subsection \<open>Cyclic closure\<close>




subsection \<open>Cycling within a class\<close>










section \<open>Properties of the workspace engine\<close>

subsection \<open>Deleting a workspace\<close>

lemma and_then_simps [simp]:
  "and_then (Inl e) f = Inl e"
  "and_then (Inr x) f = f x"
  by (simp_all add: and_then_def)

lemma and_then_eq_Inr:
  "and_then r f = Inr y \<longleftrightarrow> (\<exists>x. r = Inr x \<and> f x = Inr y)"
  by (cases r) simp_all

declare string_of_nat.simps [simp del]

lemma ex_env_simps [simp]:
  "noclip ex_env" "MAX_WORKSPACES ex_env = 100" "MAX_WORKSPACENAME_WIDTH ex_env = 64"
  "\<not> sticky_icons ex_env" "NSMainMenuWindowLevel ex_env = 20"
  by (simp_all add: ex_env_def)

text \<open>
  Claim C2 fails on the code. Of three workspaces, none in use, deleting index 2 removes
  the workspace at index 1 and keeps the one at index 2, and deleting index 1 removes
  workspace 0: the copy loop leaves out index \<open>workspace - 1\<close>.
\<close>

theorem wWorkspaceDelete_removes_index_before:
  "map (name) (workspaces ex_screen) = [''Workspace 1'', ''Workspace 2'', ''Workspace 3'']
   \<and> map_sum id (\<lambda>(ok, scr). (ok, map name (workspaces scr)))
        (wWorkspaceDelete ex_env ex_ext ex_screen 2)
     = Inr (True, [''Workspace 1'', ''Workspace 3''])
   \<and> map_sum id (\<lambda>(ok, scr). (ok, map name (workspaces scr)))
        (wWorkspaceDelete ex_env ex_ext ex_screen 1)
     = Inr (True, [''Workspace 2'', ''Workspace 3''])"
  by (simp add: wWorkspaceDelete_def workspace_count_def Let_def ex_screen_def ex_workspace_def)

lemma delete_copy_past: "workspace - 1 < i \<Longrightarrow> delete_copy workspace i wss = wss"
  by (induction wss arbitrary: i) auto

lemma delete_copy_eq:
  "i \<le> workspace - 1 \<Longrightarrow>
     delete_copy workspace i wss
       = take (nat (workspace - 1 - i)) wss @ drop (Suc (nat (workspace - 1 - i))) wss"
proof (induction wss arbitrary: i)
  case Nil
  then show ?case by simp
next
  case (Cons w wss)
  show ?case
  proof (cases "i = workspace - 1")
    case True
    then show ?thesis by (simp add: delete_copy_past)
  next
    case False
    with Cons.prems have lt: "i + 1 \<le> workspace - 1" by simp
    have n: "nat (workspace - 1 - i) = Suc (nat (workspace - 1 - (i + 1)))"
      using lt by simp
    show ?thesis
      using False Cons.IH [OF lt] by (simp add: n)
  qed
qed

text \<open>
  What a successful \<open>wWorkspaceDelete\<close> removes, in general: with clips disabled and
  the current workspace below the new count, the list loses the workspace at index
  \<open>workspace - 1\<close> and keeps the one at index \<open>workspace\<close>.
\<close>

lemma wWorkspaceDelete_removes_previous:
  assumes "0 < workspace" and "workspace \<le> workspace_count scr" and "noclip E"
      and "workspace_in_use (windows scr) workspace = Inr False"
      and "current_workspace scr < workspace_count scr - 1"
  shows "\<exists>scr'. wWorkspaceDelete E X scr workspace = Inr (True, scr')
           \<and> workspaces scr' = take (nat (workspace - 1)) (workspaces scr)
                                 @ drop (nat workspace) (workspaces scr)"
proof -
  have n: "Suc (nat (workspace - 1)) = nat workspace" using assms(1) by simp
  have c: "delete_copy workspace 0 (workspaces scr)
             = take (nat (workspace - 1)) (workspaces scr) @ drop (nat workspace) (workspaces scr)"
    using delete_copy_eq [of 0 workspace "workspaces scr"] assms(1) by (simp add: n)
  have l: "int (length (take (nat (workspace - 1)) (workspaces scr)
                        @ drop (nat workspace) (workspaces scr)))
             = workspace_count scr - 1"
    using assms(1,2) by (simp add: workspace_count_def)
  show ?thesis
    using assms l by (simp add: wWorkspaceDelete_def Let_def c workspace_count_def)
qed

lemma workspace_in_use_found:
  assumes "\<exists>w \<in> set ws. \<not> omnipresent w \<and> frame_workspace w = Some k"
  shows "workspace_in_use ws k = Inr True \<or> workspace_in_use ws k = Inl NullDereference"
  using assms by (induction ws) (auto split: option.splits)

lemma workspace_in_use_framed:
  assumes "\<forall>w \<in> set ws. frame_workspace w \<noteq> None"
  shows "workspace_in_use ws k = Inr (\<exists>w \<in> set ws. \<not> omnipresent w \<and> frame_workspace w = Some k)"
  using assms by (induction ws) (auto split: option.splits)

text \<open>
  Claim C9. When the index is 0 (or negative), or a window that is not omnipresent
  belongs to the workspace, every return of \<open>wWorkspaceDelete\<close> is a refusal that
  leaves the screen as it was; and the call does return, with that refusal, when the
  index is 0 or every managed window has its frame.
\<close>

theorem wWorkspaceDelete_refuses:
  assumes "workspace \<le> 0
           \<or> (\<exists>w \<in> set (windows scr). \<not> omnipresent w \<and> frame_workspace w = Some workspace)"
  shows "(\<forall>ok scr'. wWorkspaceDelete E X scr workspace = Inr (ok, scr') \<longrightarrow> \<not> ok \<and> scr' = scr)
       \<and> (workspace \<le> 0 \<or> (\<forall>w \<in> set (windows scr). frame_workspace w \<noteq> None)
            \<longrightarrow> wWorkspaceDelete E X scr workspace = Inr (False, scr))"
proof (cases "workspace \<le> 0")
  case True
  then show ?thesis by (simp add: wWorkspaceDelete_def)
next
  case False
  with assms have used: "\<exists>w \<in> set (windows scr). \<not> omnipresent w \<and> frame_workspace w = Some workspace"
    by simp
  from workspace_in_use_found [OF used]
  have a: "\<forall>ok scr'. wWorkspaceDelete E X scr workspace = Inr (ok, scr') \<longrightarrow> \<not> ok \<and> scr' = scr"
    using False by (auto simp: wWorkspaceDelete_def)
  have b: "(\<forall>w \<in> set (windows scr). frame_workspace w \<noteq> None)
            \<longrightarrow> wWorkspaceDelete E X scr workspace = Inr (False, scr)"
    using False used by (auto simp: wWorkspaceDelete_def workspace_in_use_framed)
  from a b False show ?thesis by blast
qed

text \<open>The theorem at index 0, and at index 2 with a window on workspace 2.\<close>

theorem wWorkspaceDelete_refuses_witness:
  "wWorkspaceDelete ex_env ex_ext ex_used_screen 0 = Inr (False, ex_used_screen)
   \<and> wWorkspaceDelete ex_env ex_ext ex_used_screen 2 = Inr (False, ex_used_screen)"
proof -
  have framed: "\<forall>w \<in> set (windows ex_used_screen). frame_workspace w \<noteq> None"
    by (simp add: ex_used_screen_def ex_win_def ex_window_def)
  have used: "\<exists>w \<in> set (windows ex_used_screen). \<not> omnipresent w \<and> frame_workspace w = Some 2"
    by (simp add: ex_used_screen_def ex_win_def ex_window_def)
  have z: "(0::int) \<le> 0" by simp
  from wWorkspaceDelete_refuses [of 0 ex_used_screen ex_env ex_ext, OF disjI1, OF z]
  have a: "wWorkspaceDelete ex_env ex_ext ex_used_screen 0 = Inr (False, ex_used_screen)"
    by simp
  from wWorkspaceDelete_refuses [of 2 ex_used_screen ex_env ex_ext, OF disjI2, OF used] framed
  have b: "wWorkspaceDelete ex_env ex_ext ex_used_screen 2 = Inr (False, ex_used_screen)"
    by blast
  from a b show ?thesis by simp
qed

subsection \<open>Renaming a workspace\<close>

lemma wtrimspace_empty_iff: "wtrimspace s = [] \<longleftrightarrow> (\<forall>c \<in> set s. isspace c)"
proof
  assume e: "wtrimspace s = []"
  then have "dropWhile isspace (rev (dropWhile isspace s)) = []"
    by (simp only: wtrimspace_def rev_is_Nil_conv)
  then have "\<forall>c \<in> set (rev (dropWhile isspace s)). isspace c"
    by (simp only: dropWhile_eq_Nil_conv)
  then have all: "\<forall>c \<in> set (dropWhile isspace s). isspace c"
    by simp
  have "dropWhile isspace s = []"
  proof (rule ccontr)
    assume ne: "dropWhile isspace s \<noteq> []"
    then have "\<not> isspace (hd (dropWhile isspace s))" by (rule hd_dropWhile)
    moreover have "hd (dropWhile isspace s) \<in> set (dropWhile isspace s)"
      using ne by (rule hd_in_set)
    ultimately show False using all by blast
  qed
  then show "\<forall>c \<in> set s. isspace c"
    by (simp only: dropWhile_eq_Nil_conv)
next
  assume "\<forall>c \<in> set s. isspace c"
  then have d: "dropWhile isspace s = []" by (simp only: dropWhile_eq_Nil_conv)
  show "wtrimspace s = []" unfolding wtrimspace_def d by simp
qed

lemma string_of_nat_nonempty: "string_of_nat n \<noteq> []"
  by (subst string_of_nat.simps) simp

text \<open>
  Renaming a workspace that exists: the name that is stored, the workspaces that are
  left alone, and the notification.
\<close>

lemma wWorkspaceRename_existing:
  assumes "0 \<le> workspace" and "workspace < workspace_count scr"
  shows "\<exists>scr'. wWorkspaceRename E scr workspace raw = Inr scr'
           \<and> name (workspaces scr' ! nat workspace)
               = take (MAX_WORKSPACENAME_WIDTH E)
                   (if wtrimspace raw = [] then ''Workspace '' @ string_of_int (workspace + 1)
                    else wtrimspace raw)
           \<and> ((\<forall>c \<in> set raw. isspace c) \<longrightarrow>
                 name (workspaces scr' ! nat workspace)
                   = take (MAX_WORKSPACENAME_WIDTH E) (''Workspace '' @ string_of_int (workspace + 1))
                 \<and> (0 < MAX_WORKSPACENAME_WIDTH E \<longrightarrow> name (workspaces scr' ! nat workspace) \<noteq> []))
           \<and> length (workspaces scr') = length (workspaces scr)
           \<and> (\<forall>i < length (workspaces scr). i \<noteq> nat workspace \<longrightarrow>
                 workspaces scr' ! i = workspaces scr ! i)
           \<and> calls scr' = calls scr @ [PostNotification WMDidChangeWorkspaceNameNotification workspace]"
proof -
  let ?M = "MAX_WORKSPACENAME_WIDTH E"
  let ?new = "take ?M (if wtrimspace raw = [] then ''Workspace '' @ string_of_int (workspace + 1)
                       else wtrimspace raw)"
  define scr' where "scr' = scr\<lparr>workspaces := (workspaces scr)
                          [nat workspace := (workspaces scr ! nat workspace)\<lparr>name := ?new\<rparr>],
                    calls := calls scr
                          @ [PostNotification WMDidChangeWorkspaceNameNotification workspace]\<rparr>"
  have lt: "nat workspace < length (workspaces scr)"
    using assms by (simp add: workspace_count_def)
  have r: "wWorkspaceRename E scr workspace raw = Inr scr'"
    using assms by (simp add: wWorkspaceRename_def Let_def scr'_def snprintf_Workspace_def)
  have nm: "name (workspaces scr' ! nat workspace) = ?new"
    using lt by (simp add: scr'_def)
  have ws: "(\<forall>c \<in> set raw. isspace c) \<longrightarrow>
                 name (workspaces scr' ! nat workspace)
                   = take ?M (''Workspace '' @ string_of_int (workspace + 1))
                 \<and> (0 < ?M \<longrightarrow> name (workspaces scr' ! nat workspace) \<noteq> [])"
  proof
    assume "\<forall>c \<in> set raw. isspace c"
    then have e: "wtrimspace raw = []" by (simp add: wtrimspace_empty_iff)
    have "name (workspaces scr' ! nat workspace)
            = take ?M (''Workspace '' @ string_of_int (workspace + 1))"
      unfolding nm using e by simp
    moreover have "0 < ?M \<longrightarrow> take ?M (''Workspace '' @ string_of_int (workspace + 1)) \<noteq> []"
      by simp
    ultimately show "name (workspaces scr' ! nat workspace)
                   = take ?M (''Workspace '' @ string_of_int (workspace + 1))
                 \<and> (0 < ?M \<longrightarrow> name (workspaces scr' ! nat workspace) \<noteq> [])"
      by simp
  qed
  have len: "length (workspaces scr') = length (workspaces scr)"
    by (simp add: scr'_def)
  have others: "\<forall>i < length (workspaces scr). i \<noteq> nat workspace \<longrightarrow>
                 workspaces scr' ! i = workspaces scr ! i"
    by (simp add: scr'_def)
  have cl: "calls scr' = calls scr @ [PostNotification WMDidChangeWorkspaceNameNotification workspace]"
    by (simp add: scr'_def)
  show ?thesis
    by (rule exI [of _ scr']) (intro conjI r nm ws len others cl)
qed

text \<open>
  Claim C3, as the code has it. For an index of an existing workspace the call returns;
  the workspace's name becomes the trimmed raw name, or \<open>Workspace\<close> and the index
  plus one when nothing is left after trimming (so for every all-whitespace raw name,
  and then it is not empty when the maximum length is not zero), cut to the maximum
  length; no other workspace changes; and the name-change notification is posted
  in every case, also when the new name is the old one. For an index at or above the
  number of workspaces the call returns at once: nothing is changed and nothing is
  posted.
\<close>

theorem wWorkspaceRename_name_and_notification:
  "(workspace_count scr \<le> workspace \<longrightarrow> wWorkspaceRename E scr workspace raw = Inr scr)
   \<and> (0 \<le> workspace \<and> workspace < workspace_count scr \<longrightarrow>
        (\<exists>scr'. wWorkspaceRename E scr workspace raw = Inr scr'
           \<and> name (workspaces scr' ! nat workspace)
               = take (MAX_WORKSPACENAME_WIDTH E)
                   (if wtrimspace raw = [] then ''Workspace '' @ string_of_int (workspace + 1)
                    else wtrimspace raw)
           \<and> ((\<forall>c \<in> set raw. isspace c) \<longrightarrow>
                 name (workspaces scr' ! nat workspace)
                   = take (MAX_WORKSPACENAME_WIDTH E) (''Workspace '' @ string_of_int (workspace + 1))
                 \<and> (0 < MAX_WORKSPACENAME_WIDTH E \<longrightarrow> name (workspaces scr' ! nat workspace) \<noteq> []))
           \<and> length (workspaces scr') = length (workspaces scr)
           \<and> (\<forall>i < length (workspaces scr). i \<noteq> nat workspace \<longrightarrow>
                 workspaces scr' ! i = workspaces scr ! i)
           \<and> calls scr' = calls scr @ [PostNotification WMDidChangeWorkspaceNameNotification workspace]))"
proof (intro conjI impI)
  assume "workspace_count scr \<le> workspace"
  then show "wWorkspaceRename E scr workspace raw = Inr scr"
    by (simp add: wWorkspaceRename_def)
next
  assume v: "0 \<le> workspace \<and> workspace < workspace_count scr"
  show "\<exists>scr'. wWorkspaceRename E scr workspace raw = Inr scr'
           \<and> name (workspaces scr' ! nat workspace)
               = take (MAX_WORKSPACENAME_WIDTH E)
                   (if wtrimspace raw = [] then ''Workspace '' @ string_of_int (workspace + 1)
                    else wtrimspace raw)
           \<and> ((\<forall>c \<in> set raw. isspace c) \<longrightarrow>
                 name (workspaces scr' ! nat workspace)
                   = take (MAX_WORKSPACENAME_WIDTH E) (''Workspace '' @ string_of_int (workspace + 1))
                 \<and> (0 < MAX_WORKSPACENAME_WIDTH E \<longrightarrow> name (workspaces scr' ! nat workspace) \<noteq> []))
           \<and> length (workspaces scr') = length (workspaces scr)
           \<and> (\<forall>i < length (workspaces scr). i \<noteq> nat workspace \<longrightarrow>
                 workspaces scr' ! i = workspaces scr ! i)
           \<and> calls scr' = calls scr @ [PostNotification WMDidChangeWorkspaceNameNotification workspace]"
    by (rule wWorkspaceRename_existing [OF v [THEN conjunct1] v [THEN conjunct2]])
qed

text \<open>
  The theorem at an all-whitespace name for the second of three workspaces, and at a
  name for a fourth workspace, which does not exist.
\<close>

theorem wWorkspaceRename_name_and_notification_witness:
  "(\<exists>scr'. wWorkspaceRename ex_env (ex_screen\<lparr>workspaces :=
               [ex_workspace ''Workspace 1'', ex_workspace ''Mail'', ex_workspace ''Workspace 3'']\<rparr>)
             1 ''   '' = Inr scr'
      \<and> name (workspaces scr' ! 1) = ''Workspace 2''
      \<and> calls scr' = [PostNotification WMDidChangeWorkspaceNameNotification 1])
   \<and> wWorkspaceRename ex_env ex_screen 3 ''Mail'' = Inr ex_screen"
proof -
  let ?scr = "ex_screen\<lparr>workspaces :=
               [ex_workspace ''Workspace 1'', ex_workspace ''Mail'', ex_workspace ''Workspace 3'']\<rparr>"
  have v: "(0::int) \<le> 1 \<and> 1 < workspace_count ?scr"
    by (simp add: workspace_count_def)
  have sp: "\<forall>c \<in> set ''   ''. isspace c" by (simp add: isspace_def)
  have two: "string_of_int 2 = ''2''"
    by (simp add: string_of_int_def string_of_nat.simps)
  from wWorkspaceRename_name_and_notification [where E = ex_env and scr = ?scr and workspace = 1
      and raw = "''   ''", THEN conjunct2, THEN mp, OF v]
  obtain scr' where s: "wWorkspaceRename ex_env ?scr 1 ''   '' = Inr scr'"
    "(\<forall>c \<in> set ''   ''. isspace c) \<longrightarrow>
       name (workspaces scr' ! nat 1)
          = take (MAX_WORKSPACENAME_WIDTH ex_env) (''Workspace '' @ string_of_int (1 + 1))
       \<and> (0 < MAX_WORKSPACENAME_WIDTH ex_env \<longrightarrow> name (workspaces scr' ! nat 1) \<noteq> [])"
    "calls scr' = calls ?scr @ [PostNotification WMDidChangeWorkspaceNameNotification 1]"
    by (elim exE conjE) (rule that)
  from s(2) sp have "name (workspaces scr' ! 1) = ''Workspace 2''"
    by (simp add: two)
  moreover from s(3) have "calls scr' = [PostNotification WMDidChangeWorkspaceNameNotification 1]"
    by (simp add: ex_screen_def)
  ultimately have a: "\<exists>scr'. wWorkspaceRename ex_env ?scr 1 ''   '' = Inr scr'
      \<and> name (workspaces scr' ! 1) = ''Workspace 2''
      \<and> calls scr' = [PostNotification WMDidChangeWorkspaceNameNotification 1]"
    using s(1) by blast
  have beyond: "workspace_count ex_screen \<le> 3"
    by (simp add: workspace_count_def ex_screen_def)
  from wWorkspaceRename_name_and_notification [where E = ex_env and scr = ex_screen
      and workspace = 3 and raw = "''Mail''", THEN conjunct1, THEN mp, OF beyond]
  have b: "wWorkspaceRename ex_env ex_screen 3 ''Mail'' = Inr ex_screen" .
  from a b show ?thesis by blast
qed

text \<open>
  Renaming the first workspace to the name it has: the name is unchanged, and the
  notification is posted all the same, where claim C3 says that none is.
\<close>

theorem wWorkspaceRename_same_name_counterexample:
  "name (workspaces ex_screen ! 0) = ''Workspace 1''
   \<and> map_sum id (\<lambda>scr. (name (workspaces scr ! 0), calls scr))
        (wWorkspaceRename ex_env ex_screen 0 ''Workspace 1'')
     = Inr (''Workspace 1'', [PostNotification WMDidChangeWorkspaceNameNotification 0])
   \<and> calls ex_screen = []"
  by (simp add: wWorkspaceRename_def workspace_count_def Let_def ex_screen_def ex_workspace_def
      wtrimspace_def isspace_def)

subsection \<open>The steps of a transition\<close>

lemma wWorkspaceNew_frame [simp]:
  "current_workspace (snd (wWorkspaceNew E X scr)) = current_workspace scr"
  "last_workspace (snd (wWorkspaceNew E X scr)) = last_workspace scr"
  "windows (snd (wWorkspaceNew E X scr)) = windows scr"
  "wapp_list (snd (wWorkspaceNew E X scr)) = wapp_list scr"
  "ignore_focus_events (snd (wWorkspaceNew E X scr)) = ignore_focus_events scr"
  by (simp_all add: wWorkspaceNew_def Let_def)

lemma wWorkspaceMake_frame [simp]:
  "current_workspace (wWorkspaceMake E X scr n) = current_workspace scr"
  "last_workspace (wWorkspaceMake E X scr n) = last_workspace scr"
  "windows (wWorkspaceMake E X scr n) = windows scr"
  "wapp_list (wWorkspaceMake E X scr n) = wapp_list scr"
  "ignore_focus_events (wWorkspaceMake E X scr n) = ignore_focus_events scr"
  by (induction n arbitrary: scr) simp_all

lemma wWorkspaceSaveFocusedWindow_frame:
  assumes "wWorkspaceSaveFocusedWindow scr k w = Inr scr'"
  shows "current_workspace scr' = current_workspace scr"
    and "last_workspace scr' = last_workspace scr"
    and "windows scr' = windows scr"
    and "wapp_list scr' = wapp_list scr"
    and "calls scr' = calls scr"
    and "ignore_focus_events scr' = ignore_focus_events scr"
    and "length (workspaces scr') = length (workspaces scr)"
  using assms by (auto simp: wWorkspaceSaveFocusedWindow_def Let_def split: if_splits)

lemma fc_begin_frame:
  assumes "fc_begin E X scr workspace = Inr scr1"
  shows "current_workspace scr1 = workspace"
    and "last_workspace scr1 = current_workspace scr"
    and "windows scr1 = windows scr"
    and "wapp_list scr1 = wapp_list scr"
    and "ignore_focus_events scr1 = ignore_focus_events scr"
proof -
  let ?scr0 = "if workspace > workspace_count scr - 1
                  then wWorkspaceMake E X scr (nat (workspace - workspace_count scr + 1))
                  else scr"
  from assms obtain to_save scr2 where
    s: "wWorkspaceSaveFocusedWindow ?scr0 (current_workspace ?scr0) to_save = Inr scr2"
    and e: "scr1 = scr2\<lparr>last_workspace := current_workspace scr2, current_workspace := workspace\<rparr>"
    by (auto simp: fc_begin_def Let_def and_then_eq_Inr)
  note f = wWorkspaceSaveFocusedWindow_frame [OF s]
  show "current_workspace scr1 = workspace" by (simp add: e)
  show "last_workspace scr1 = current_workspace scr" using f(1) by (simp add: e)
  show "windows scr1 = windows scr" using f(3) by (simp add: e)
  show "wapp_list scr1 = wapp_list scr" using f(4) by (simp add: e)
  show "ignore_focus_events scr1 = ignore_focus_events scr" using f(6) by (simp add: e)
qed


lemma fc_focus_frame:
  assumes "fc_focus scr workspace focus_win foc0 = Inr scr'"
  shows "\<exists>target. scr' = scr\<lparr>calls := calls scr @ [SetFocusTo target]\<rparr>"
  using assms by (auto simp: fc_focus_def Let_def and_then_eq_Inr)

lemma fc_finish_result:
  assumes "fc_finish E scr workspace = Inr scr'"
  shows "scr' = scr\<lparr>last_workspace := workspace,
                    calls := calls scr
                      @ [PostNotification WMDidChangeWorkspaceNotification workspace]\<rparr>"
  using assms by (auto simp: fc_finish_def split: if_splits)

text \<open>A transition that passes its entry check and completes, step by step.\<close>

lemma wWorkspaceForceChange_steps:
  assumes "wWorkspaceForceChange E X scr workspace focus_win = Inr scr'"
      and "0 \<le> workspace" and "workspace < MAX_WORKSPACES E"
      and "workspace \<noteq> current_workspace scr"
  shows "\<exists>scr1 scr3. fc_begin E X scr workspace = Inr scr1
      \<and> fc_finish E scr3 workspace = Inr scr'
      \<and> (windows scr1 = [] \<longrightarrow> scr3 = scr1)
      \<and> (windows scr1 \<noteq> [] \<longrightarrow>
             (\<exists>scr2 foc0. fc_partition E X scr1 workspace = Inr (scr2, foc0)
                \<and> fc_focus (fc_flush X scr2) workspace focus_win foc0 = Inr scr3))"
proof -
  from assms obtain scr1 scr3 where
    b: "fc_begin E X scr workspace = Inr scr1"
    and m: "(if windows scr1 \<noteq> [] then
               and_then (fc_partition E X scr1 workspace) (\<lambda>(scr2, foc0).
                 fc_focus (fc_flush X scr2) workspace focus_win foc0)
             else Inr scr1) = Inr scr3"
    and f: "fc_finish E scr3 workspace = Inr scr'"
    by (auto simp: wWorkspaceForceChange_def and_then_eq_Inr)
  have e: "windows scr1 = [] \<longrightarrow> scr3 = scr1" using m by (auto split: if_splits)
  have n: "windows scr1 \<noteq> [] \<longrightarrow>
             (\<exists>scr2 foc0. fc_partition E X scr1 workspace = Inr (scr2, foc0)
                \<and> fc_focus (fc_flush X scr2) workspace focus_win foc0 = Inr scr3)"
    using m by (auto simp: and_then_eq_Inr split: if_splits)
  from b f e n show ?thesis by blast
qed


lemmas fc_defs = wWorkspaceForceChange_def fc_begin_def fc_partition_def fc_flush_def
  fc_focus_def fc_finish_def fc_until_flush_def partition_window_def apply_queue_def
  wWorkspaceSaveFocusedWindow_def workspace_count_def Let_def

lemma ex_ext_simps [simp]:
  "ProcessPendingEvents ex_ext = (\<lambda>scr. scr)"
  "wWindowMap ex_ext = spec_wWindowMap"
  "wWindowUnmap ex_ext = spec_wWindowUnmap"
  "wWindowChangeWorkspace ex_ext = spec_wWindowChangeWorkspace"
  by (simp_all add: ex_ext_def)

lemma ex_requesting_ext_simps [simp]:
  "ProcessPendingEvents ex_requesting_ext
     = ProcessPendingEvents_queue ex_env ex_ext [WorkspaceRequest 2 None]"
  "wWindowMap ex_requesting_ext = spec_wWindowMap"
  "wWindowUnmap ex_requesting_ext = spec_wWindowUnmap"
  "wWindowChangeWorkspace ex_requesting_ext = spec_wWindowChangeWorkspace"
  by (simp_all add: ex_requesting_ext_def ex_ext_def)

lemma ex_lowering_ext_simps [simp]:
  "ProcessPendingEvents ex_lowering_ext
     = ProcessPendingEvents_queue ex_env ex_ext
         [IgnoreFocusEventsMessage 0, WorkspaceRequest 2 None]"
  "wWindowMap ex_lowering_ext = spec_wWindowMap"
  "wWindowUnmap ex_lowering_ext = spec_wWindowUnmap"
  "wWindowChangeWorkspace ex_lowering_ext = spec_wWindowChangeWorkspace"
  by (simp_all add: ex_lowering_ext_def ex_ext_def)








subsection \<open>Requests during the flush\<close>

lemma wWorkspaceNew_events_free [simp]:
  "wWorkspaceNew E (X\<lparr>ProcessPendingEvents := h\<rparr>) scr = wWorkspaceNew E X scr"
  by (simp add: wWorkspaceNew_def)

lemma wWorkspaceMake_events_free [simp]:
  "wWorkspaceMake E (X\<lparr>ProcessPendingEvents := h\<rparr>) scr n = wWorkspaceMake E X scr n"
  by (induction n arbitrary: scr) simp_all

lemma partition_window_events_free [simp]:
  "partition_window E (X\<lparr>ProcessPendingEvents := h\<rparr>) workspace i tmp acc
     = partition_window E X workspace i tmp acc"
  by (cases "frame_workspace tmp") (simp_all add: partition_window_def)

lemma partition_loop_events_free [simp]:
  "partition_loop E (X\<lparr>ProcessPendingEvents := h\<rparr>) workspace i ws acc
     = partition_loop E X workspace i ws acc"
  by (induction ws arbitrary: i acc) simp_all

lemma fc_begin_events_free [simp]:
  "fc_begin E (X\<lparr>ProcessPendingEvents := h\<rparr>) scr workspace = fc_begin E X scr workspace"
  by (simp add: fc_begin_def)

lemma fc_partition_events_free [simp]:
  "fc_partition E (X\<lparr>ProcessPendingEvents := h\<rparr>) scr workspace = fc_partition E X scr workspace"
  by (simp add: fc_partition_def)






subsection \<open>Omnipresent windows\<close>

lemma positions_bounds:
  "p \<in> set (positions P i ws) \<Longrightarrow> i \<le> p \<and> p < i + length ws"
  by (induction ws arbitrary: i) (fastforce split: if_splits)+

lemma positions_member:
  "p \<in> set (positions P i ws) \<longleftrightarrow> (i \<le> p \<and> p < i + length ws \<and> P (ws ! (p - i)))"
proof (induction ws arbitrary: i)
  case Nil
  then show ?case by simp
next
  case (Cons w ws)
  show ?case
  proof (cases "p = i")
    case True
    have "i \<notin> set (positions P (Suc i) ws)"
      using positions_bounds [of i P "Suc i" ws] by auto
    with True show ?thesis by simp
  next
    case False
    then have "p \<in> set (positions P i (w # ws)) \<longleftrightarrow> p \<in> set (positions P (Suc i) ws)"
      by simp
    also have "\<dots> \<longleftrightarrow> (Suc i \<le> p \<and> p < Suc i + length ws \<and> P (ws ! (p - Suc i)))"
      by (rule Cons.IH)
    also have "\<dots> \<longleftrightarrow> (i \<le> p \<and> p < i + length (w # ws) \<and> P ((w # ws) ! (p - i)))"
    proof (cases "i < p")
      case True
      then have "p - i = Suc (p - Suc i)" by simp
      then have "(w # ws) ! (p - i) = ws ! (p - Suc i)" by simp
      then show ?thesis using True by auto
    next
      case ge: False
      then show ?thesis using False by auto
    qed
    finally show ?thesis .
  qed
qed

lemma positions_distinct: "distinct (positions P i ws)"
proof (induction ws arbitrary: i)
  case Nil
  then show ?case by simp
next
  case (Cons w ws)
  have "i \<notin> set (positions P (Suc i) ws)"
    using positions_bounds [of i P "Suc i" ws] by auto
  with Cons.IH [of "Suc i"] show ?case by simp
qed

lemma apply_step_other:
  "p \<notin> set q \<Longrightarrow> fold (\<lambda>i ws'. ws'[i := f (ws' ! i)]) q ws ! p = ws ! p"
  by (induction q arbitrary: ws) auto

lemma apply_step_length [simp]:
  "length (fold (\<lambda>i ws'. ws'[i := f (ws' ! i)]) q ws) = length ws"
  by (induction q arbitrary: ws) auto

lemma apply_step_at:
  "distinct q \<Longrightarrow> p \<in> set q \<Longrightarrow> p < length ws \<Longrightarrow>
     fold (\<lambda>i ws'. ws'[i := f (ws' ! i)]) q ws ! p = f (ws ! p)"
proof (induction q arbitrary: ws)
  case Nil
  then show ?case by simp
next
  case (Cons a q)
  show ?case
  proof (cases "p = a")
    case True
    with Cons.prems have "p \<notin> set q" by simp
    then show ?thesis using True Cons.prems(3) by (simp add: apply_step_other)
  next
    case False
    with Cons.prems have "p \<in> set q" "distinct q" by simp_all
    from Cons.IH [OF this(2) this(1), of "ws[a := f (ws ! a)]"] Cons.prems(3) False
    show ?thesis by simp
  qed
qed

lemma apply_queue_other:
  "p \<notin> set q \<Longrightarrow> apply_queue f q ws ! p = ws ! p"
  by (simp add: apply_queue_def apply_step_other)

lemma apply_queue_at:
  "distinct q \<Longrightarrow> p \<in> set q \<Longrightarrow> p < length ws \<Longrightarrow> apply_queue f q ws ! p = f (ws ! p)"
  by (simp add: apply_queue_def apply_step_at)

lemma apply_queue_length [simp]: "length (apply_queue f q ws) = length ws"
  by (simp add: apply_queue_def)

text \<open>One window of the traversal: what is queued, and what becomes of an omnipresent window.\<close>

lemma partition_window_queues:
  assumes "partition_window E X workspace i tmp acc = Inr (tmp', acc')"
  shows "toUnmap acc' = toUnmap acc @ (if queued_for_unmap workspace tmp then [i] else [])"
    and "toMap acc' = toMap acc @ (if queued_for_map workspace tmp then [i] else [])"
  using assms
  by (auto simp: partition_window_def queued_for_unmap_def queued_for_map_def Let_def
           split: option.splits if_splits)

lemma partition_window_omnipresent:
  assumes "partition_window E X workspace i tmp acc = Inr (tmp', acc')"
      and "omnipresent tmp"
  shows "tmp' = (if selected tmp then wWindowChangeWorkspace X tmp workspace
                 else if frame_workspace tmp \<noteq> Some workspace
                 then tmp\<lparr>frame_workspace := Some workspace\<rparr>
                 else tmp)"
  using assms
  by (auto simp: partition_window_def Let_def split: option.splits if_splits)

lemma partition_loop_result:
  assumes "partition_loop E X workspace i ws acc = Inr (ws', acc')"
  shows "length ws' = length ws
       \<and> toUnmap acc' = toUnmap acc @ positions (queued_for_unmap workspace) i ws
       \<and> toMap acc' = toMap acc @ positions (queued_for_map workspace) i ws
       \<and> (\<forall>j < length ws. omnipresent (ws ! j) \<longrightarrow>
             ws' ! j = (if selected (ws ! j) then wWindowChangeWorkspace X (ws ! j) workspace
                        else if frame_workspace (ws ! j) \<noteq> Some workspace
                        then (ws ! j)\<lparr>frame_workspace := Some workspace\<rparr>
                        else ws ! j))"
  using assms
proof (induction ws arbitrary: i acc ws' acc')
  case Nil
  then show ?case by simp
next
  case (Cons tmp rest)
  from Cons.prems obtain tmp' acc1 rest' where
    w: "partition_window E X workspace i tmp acc = Inr (tmp', acc1)"
    and l: "partition_loop E X workspace (Suc i) rest acc1 = Inr (rest', acc')"
    and e: "ws' = tmp' # rest'"
    by (auto simp: and_then_eq_Inr)
  note q = partition_window_queues [OF w]
  note ih = Cons.IH [OF l]
  have len: "length ws' = length (tmp # rest)" using ih e by simp
  have un: "toUnmap acc' = toUnmap acc @ positions (queued_for_unmap workspace) i (tmp # rest)"
    using ih q(1) by simp
  have mp: "toMap acc' = toMap acc @ positions (queued_for_map workspace) i (tmp # rest)"
    using ih q(2) by simp
  have om: "\<forall>j < length (tmp # rest). omnipresent ((tmp # rest) ! j) \<longrightarrow>
             ws' ! j = (if selected ((tmp # rest) ! j)
                        then wWindowChangeWorkspace X ((tmp # rest) ! j) workspace
                        else if frame_workspace ((tmp # rest) ! j) \<noteq> Some workspace
                        then ((tmp # rest) ! j)\<lparr>frame_workspace := Some workspace\<rparr>
                        else (tmp # rest) ! j)"
  proof (intro allI impI)
    fix j assume j: "j < length (tmp # rest)" and o: "omnipresent ((tmp # rest) ! j)"
    show "ws' ! j = (if selected ((tmp # rest) ! j)
                        then wWindowChangeWorkspace X ((tmp # rest) ! j) workspace
                        else if frame_workspace ((tmp # rest) ! j) \<noteq> Some workspace
                        then ((tmp # rest) ! j)\<lparr>frame_workspace := Some workspace\<rparr>
                        else (tmp # rest) ! j)"
    proof (cases j)
      case 0
      with o have "omnipresent tmp" by simp
      from partition_window_omnipresent [OF w this] show ?thesis using 0 e by simp
    next
      case (Suc j')
      with j o have "j' < length rest" "omnipresent (rest ! j')" by simp_all
      with ih show ?thesis using Suc e by simp
    qed
  qed
  from len un mp om show ?case by blast
qed

lemma fc_partition_omnipresent:
  assumes "fc_partition E X scr workspace = Inr (scr2, foc0)"
      and "i < length (windows scr)" and "omnipresent (windows scr ! i)"
  shows "windows scr2 ! i =
           (if selected (windows scr ! i) then wWindowChangeWorkspace X (windows scr ! i) workspace
            else if frame_workspace (windows scr ! i) \<noteq> Some workspace
            then (windows scr ! i)\<lparr>frame_workspace := Some workspace\<rparr>
            else if \<not> hidden (windows scr ! i) \<and> \<not> mapped (windows scr ! i)
                    \<and> \<not> miniaturized (windows scr ! i)
            then wWindowMap X (windows scr ! i)
            else windows scr ! i)"
proof -
  let ?w = "windows scr ! i"
  from assms(1) obtain ws' acc' where
    l: "partition_loop E X workspace 0 (windows scr)
          \<lparr>toUnmap = [], toMap = [], foc = None, p_apps = wapp_list scr\<rparr> = Inr (ws', acc')"
    and w2: "windows scr2 = apply_queue (wWindowMap X) (toMap acc')
                              (apply_queue (wWindowUnmap X) (toUnmap acc') ws')"
    by (auto simp: fc_partition_def and_then_eq_Inr Let_def)
  from partition_loop_result [OF l] assms(2,3)
  have len: "length ws' = length (windows scr)"
    and un: "toUnmap acc' = positions (queued_for_unmap workspace) 0 (windows scr)"
    and mp: "toMap acc' = positions (queued_for_map workspace) 0 (windows scr)"
    and om: "ws' ! i = (if selected ?w then wWindowChangeWorkspace X ?w workspace
                        else if frame_workspace ?w \<noteq> Some workspace
                        then ?w\<lparr>frame_workspace := Some workspace\<rparr>
                        else ?w)"
    by simp_all
  have nu: "i \<notin> set (toUnmap acc')"
    using assms(3) by (simp add: un positions_member queued_for_unmap_def)
  have u: "apply_queue (wWindowUnmap X) (toUnmap acc') ws' ! i = ws' ! i"
    using nu by (rule apply_queue_other)
  have mem: "i \<in> set (toMap acc') \<longleftrightarrow> queued_for_map workspace ?w"
    using assms(2) by (simp add: mp positions_member)
  show ?thesis
  proof (cases "queued_for_map workspace ?w")
    case True
    then have i: "i \<in> set (toMap acc')" using mem by simp
    have d: "distinct (toMap acc')" by (simp add: mp positions_distinct)
    have "windows scr2 ! i = wWindowMap X (apply_queue (wWindowUnmap X) (toUnmap acc') ws' ! i)"
      unfolding w2 using d i assms(2) len by (intro apply_queue_at) simp_all
    then show ?thesis using True u om by (simp add: queued_for_map_def)
  next
    case False
    then have "i \<notin> set (toMap acc')" using mem by simp
    then have "windows scr2 ! i = apply_queue (wWindowUnmap X) (toUnmap acc') ws' ! i"
      unfolding w2 by (rule apply_queue_other)
    then show ?thesis using False u om by (auto simp: queued_for_map_def)
  qed
qed

text \<open>
  Claim C5, as the code has it. In a completed transition whose event handlers leave
  the window list alone, an omnipresent window is never unmapped, and what becomes of
  it is this: selected, it is handed to \<open>wWindowChangeWorkspace\<close>; otherwise, recorded
  on another workspace than the target, it changes in its recorded workspace only;
  otherwise (it is recorded on the target already) it is mapped by \<open>wWindowMap\<close> if it
  is neither hidden nor mapped nor miniaturized, and is left as it is if not.
\<close>

theorem wWorkspaceForceChange_omnipresent:
  assumes "wWorkspaceForceChange E X scr workspace focus_win = Inr scr'"
      and "0 \<le> workspace" and "workspace < MAX_WORKSPACES E"
      and "workspace \<noteq> current_workspace scr"
      and "\<forall>s. windows (ProcessPendingEvents X s) = windows s"
      and "i < length (windows scr)" and "omnipresent (windows scr ! i)"
  shows "windows scr' ! i =
           (if selected (windows scr ! i) then wWindowChangeWorkspace X (windows scr ! i) workspace
            else if frame_workspace (windows scr ! i) \<noteq> Some workspace
            then (windows scr ! i)\<lparr>frame_workspace := Some workspace\<rparr>
            else if \<not> hidden (windows scr ! i) \<and> \<not> mapped (windows scr ! i)
                    \<and> \<not> miniaturized (windows scr ! i)
            then wWindowMap X (windows scr ! i)
            else windows scr ! i)"
proof -
  from wWorkspaceForceChange_steps [OF assms(1-4)] obtain scr1 scr3 where
    b: "fc_begin E X scr workspace = Inr scr1"
    and f: "fc_finish E scr3 workspace = Inr scr'"
    and n: "windows scr1 \<noteq> [] \<longrightarrow>
             (\<exists>scr2 foc0. fc_partition E X scr1 workspace = Inr (scr2, foc0)
                \<and> fc_focus (fc_flush X scr2) workspace focus_win foc0 = Inr scr3)"
    by (elim exE conjE) (rule that)
  have w1: "windows scr1 = windows scr" by (rule fc_begin_frame(3) [OF b])
  then have "windows scr1 \<noteq> []" using assms(6) by auto
  with n obtain scr2 foc0 where
    p: "fc_partition E X scr1 workspace = Inr (scr2, foc0)"
    and fo: "fc_focus (fc_flush X scr2) workspace focus_win foc0 = Inr scr3"
    by blast
  have "windows scr' = windows scr3"
    using fc_finish_result [OF f] by simp
  also have "\<dots> = windows (fc_flush X scr2)"
    using fc_focus_frame [OF fo] by auto
  also have "\<dots> = windows scr2"
    using assms(5) by (simp add: fc_flush_def)
  finally have "windows scr' ! i = windows scr2 ! i" by simp
  also have "\<dots> = (if selected (windows scr1 ! i) then wWindowChangeWorkspace X (windows scr1 ! i) workspace
            else if frame_workspace (windows scr1 ! i) \<noteq> Some workspace
            then (windows scr1 ! i)\<lparr>frame_workspace := Some workspace\<rparr>
            else if \<not> hidden (windows scr1 ! i) \<and> \<not> mapped (windows scr1 ! i)
                    \<and> \<not> miniaturized (windows scr1 ! i)
            then wWindowMap X (windows scr1 ! i)
            else windows scr1 ! i)"
    using assms(6,7) by (intro fc_partition_omnipresent [OF p]) (simp_all add: w1)
  finally show ?thesis by (simp only: w1)
qed

lemma ex_omnipresent_result:
  "wWorkspaceForceChange ex_env ex_ext ex_omnipresent_screen 1 None
     = Inr (ex_screen\<lparr>
         workspaces := [(ex_workspace ''Workspace 1'')\<lparr>focused_window :=
                           Some \<lparr>saved_class = Some ''XClock'', saved_instance = ''xterm'',
                                 saved_client_win = 1\<rparr>\<rparr>,
                        ex_workspace ''Workspace 2'', ex_workspace ''Workspace 3''],
         current_workspace := 1, last_workspace := 1,
         windows := [(ex_win 1 ''XClock'')\<lparr>omnipresent := True, frame_workspace := Some 1\<rparr>,
                     (ex_win 2 ''XTerm'')\<lparr>mapped := False\<rparr>],
         calls := [SetFocusTo None, PostNotification WMDidChangeWorkspaceNotification 1]\<rparr>)"
  by (simp add: fc_defs ex_omnipresent_screen_def ex_screen_def ex_workspace_def ex_win_def
      ex_window_def spec_wWindowUnmap_def)

text \<open>
  The theorem at an omnipresent, mapped window on workspace 0 and a change to
  workspace 1: the window stays mapped and is recorded on workspace 1.
\<close>

theorem wWorkspaceForceChange_omnipresent_witness:
  "map_sum id (\<lambda>scr. windows scr ! 0)
     (wWorkspaceForceChange ex_env ex_ext ex_omnipresent_screen 1 None)
   = Inr ((ex_win 1 ''XClock'')\<lparr>omnipresent := True, frame_workspace := Some 1\<rparr>)"
proof -
  obtain scr' where r: "wWorkspaceForceChange ex_env ex_ext ex_omnipresent_screen 1 None = Inr scr'"
    using ex_omnipresent_result by blast
  have v: "(0::int) \<le> 1" "1 < MAX_WORKSPACES ex_env" "1 \<noteq> current_workspace ex_omnipresent_screen"
    by (simp_all add: ex_omnipresent_screen_def ex_screen_def)
  have h: "\<forall>s. windows (ProcessPendingEvents ex_ext s) = windows s" by simp
  have i: "0 < length (windows ex_omnipresent_screen)"
    "omnipresent (windows ex_omnipresent_screen ! 0)"
    by (simp_all add: ex_omnipresent_screen_def)
  from wWorkspaceForceChange_omnipresent [OF r v h i]
  have "windows scr' ! 0 = (ex_win 1 ''XClock'')\<lparr>omnipresent := True, frame_workspace := Some 1\<rparr>"
    by (simp add: ex_omnipresent_screen_def ex_win_def ex_window_def)
  then show ?thesis by (simp add: r)
qed

text \<open>
  An omnipresent window that is recorded on the target workspace and is not mapped is
  mapped by the transition: its mapped state changes, where claim C5 says it never does.
\<close>

theorem omnipresent_window_mapped_counterexample:
  "map omnipresent (windows ex_omnipresent_unmapped_screen) = [True]
   \<and> map mapped (windows ex_omnipresent_unmapped_screen) = [False]
   \<and> map_sum id (\<lambda>scr. map mapped (windows scr))
        (wWorkspaceForceChange ex_env ex_ext ex_omnipresent_unmapped_screen 1 None) = Inr [True]"
  by (simp add: fc_defs ex_omnipresent_unmapped_screen_def ex_screen_def ex_workspace_def
      ex_win_def ex_window_def spec_wWindowMap_def)

subsection \<open>The new focus\<close>

text \<open>The focus candidate of the traversal: the first selected window that, moved, is not miniaturized.\<close>

lemma partition_window_foc:
  assumes "partition_window E X workspace i tmp acc = Inr (tmp', acc')"
  shows "foc acc' =
           (case foc acc of
              Some w \<Rightarrow> Some w
            | None \<Rightarrow>
                if selected tmp \<and> \<not> miniaturized (wWindowChangeWorkspace X tmp workspace)
                then Some (client_win (wWindowChangeWorkspace X tmp workspace)) else None)"
  using assms
  by (auto simp: partition_window_def Let_def split: option.splits if_splits)

lemma partition_loop_foc:
  assumes "partition_loop E X workspace i ws acc = Inr (ws', acc')"
  shows "foc acc' =
           (case foc acc of
              Some w \<Rightarrow> Some w
            | None \<Rightarrow>
                map_option client_win
                  (find (\<lambda>w. \<not> miniaturized w)
                     (map (\<lambda>w. wWindowChangeWorkspace X w workspace) (filter selected ws))))"
  using assms
proof (induction ws arbitrary: i acc ws' acc')
  case Nil
  then show ?case by (simp split: option.splits)
next
  case (Cons tmp rest)
  from Cons.prems obtain tmp' acc1 rest' where
    w: "partition_window E X workspace i tmp acc = Inr (tmp', acc1)"
    and l: "partition_loop E X workspace (Suc i) rest acc1 = Inr (rest', acc')"
    by (auto simp: and_then_eq_Inr)
  note f1 = partition_window_foc [OF w]
  note ih = Cons.IH [OF l]
  show ?case
    unfolding ih f1 by (simp split: option.splits)
qed

lemma fc_partition_foc:
  assumes "fc_partition E X scr workspace = Inr (scr2, foc0)"
  shows "foc0 = map_option client_win
                  (find (\<lambda>w. \<not> miniaturized w)
                     (map (\<lambda>w. wWindowChangeWorkspace X w workspace)
                        (filter selected (windows scr))))"
proof -
  from assms obtain ws' acc' where
    l: "partition_loop E X workspace 0 (windows scr)
          \<lparr>toUnmap = [], toMap = [], foc = None, p_apps = wapp_list scr\<rparr> = Inr (ws', acc')"
    and e: "foc0 = foc acc'"
    by (auto simp: fc_partition_def and_then_eq_Inr Let_def)
  from partition_loop_foc [OF l] e show ?thesis by simp
qed

lemma fc_focus_spec:
  assumes "fc_focus scr workspace focus_win (map_option client_win moved) = Inr scr'"
  shows "scr' = scr\<lparr>calls := calls scr
           @ [SetFocusTo (spec_resolve_focus (windows scr)
                            (focused_window (workspaces scr ! nat workspace)) focus_win moved)]\<rparr>"
  using assms
  by (cases focus_win; cases moved)
     (auto simp: fc_focus_def spec_resolve_focus_def Let_def and_then_eq_Inr
           split: option.splits if_splits)

text \<open>
  Claim C6. When a window is managed, a completed transition calls \<open>wSetFocusTo\<close>
  once, after the flush and right before it announces the change, with the focus of the
  spec's step 6 resolved on the windows and the snapshot that the flush has left. The
  window "found in step 3" is the focus candidate of that step, "the first unminimized
  one" of the selected windows: the first selected window that, moved to the target, is
  not miniaturized.
\<close>

theorem wWorkspaceForceChange_new_focus:
  assumes "wWorkspaceForceChange E X scr workspace focus_win = Inr scr'"
      and "0 \<le> workspace" and "workspace < MAX_WORKSPACES E"
      and "workspace \<noteq> current_workspace scr"
      and "windows scr \<noteq> []"
  shows "\<exists>flushed. fc_until_flush E X scr workspace = Inr flushed
           \<and> calls scr' = calls flushed
               @ [SetFocusTo
                    (spec_resolve_focus (windows flushed)
                       (focused_window (workspaces flushed ! nat workspace)) focus_win
                       (find (\<lambda>w. \<not> miniaturized w)
                          (map (\<lambda>w. wWindowChangeWorkspace X w workspace)
                             (filter selected (windows scr))))),
                  PostNotification WMDidChangeWorkspaceNotification workspace]"
proof -
  from wWorkspaceForceChange_steps [OF assms(1-4)] obtain scr1 scr3 where
    b: "fc_begin E X scr workspace = Inr scr1"
    and f: "fc_finish E scr3 workspace = Inr scr'"
    and n: "windows scr1 \<noteq> [] \<longrightarrow>
             (\<exists>scr2 foc0. fc_partition E X scr1 workspace = Inr (scr2, foc0)
                \<and> fc_focus (fc_flush X scr2) workspace focus_win foc0 = Inr scr3)"
    by (elim exE conjE) (rule that)
  have w1: "windows scr1 = windows scr" by (rule fc_begin_frame(3) [OF b])
  then have "windows scr1 \<noteq> []" using assms(5) by simp
  with n obtain scr2 foc0 where
    p: "fc_partition E X scr1 workspace = Inr (scr2, foc0)"
    and fo: "fc_focus (fc_flush X scr2) workspace focus_win foc0 = Inr scr3"
    by blast
  let ?moved = "find (\<lambda>w. \<not> miniaturized w)
                  (map (\<lambda>w. wWindowChangeWorkspace X w workspace) (filter selected (windows scr)))"
  have foc0: "foc0 = map_option client_win ?moved"
    using fc_partition_foc [OF p] by (simp only: w1)
  have u: "fc_until_flush E X scr workspace = Inr (fc_flush X scr2)"
    by (simp add: fc_until_flush_def b p)
  have s3: "scr3 = (fc_flush X scr2)\<lparr>calls := calls (fc_flush X scr2)
           @ [SetFocusTo (spec_resolve_focus (windows (fc_flush X scr2))
                            (focused_window (workspaces (fc_flush X scr2) ! nat workspace))
                            focus_win ?moved)]\<rparr>"
    using fo unfolding foc0 by (rule fc_focus_spec)
  have "calls scr' = calls scr3 @ [PostNotification WMDidChangeWorkspaceNotification workspace]"
    using fc_finish_result [OF f] by simp
  also have "calls scr3 = calls (fc_flush X scr2)
           @ [SetFocusTo (spec_resolve_focus (windows (fc_flush X scr2))
                            (focused_window (workspaces (fc_flush X scr2) ! nat workspace))
                            focus_win ?moved)]"
    by (subst s3) simp
  finally have "calls scr' = calls (fc_flush X scr2)
               @ [SetFocusTo
                    (spec_resolve_focus (windows (fc_flush X scr2))
                       (focused_window (workspaces (fc_flush X scr2) ! nat workspace)) focus_win
                       ?moved),
                  PostNotification WMDidChangeWorkspaceNotification workspace]"
    by simp
  with u show ?thesis by blast
qed

lemma ex_selected_result:
  "map_sum id calls (wWorkspaceForceChange ex_env ex_ext ex_selected_screen 1 None)
     = Inr [SetFocusTo (Some ((ex_win 2 ''XTerm'')\<lparr>selected := True, frame_workspace := Some 1\<rparr>)),
            PostNotification WMDidChangeWorkspaceNotification 1]"
  by (simp add: fc_defs ex_selected_screen_def ex_screen_def ex_workspace_def ex_win_def
      ex_window_def spec_wWindowUnmap_def spec_wWindowMap_def spec_wWindowChangeWorkspace_def)

text \<open>
  The theorem at two selected windows, the first of them miniaturized, and a change to
  workspace 1 with no explicit target: the second window gets the focus.
\<close>

theorem wWorkspaceForceChange_new_focus_witness:
  "\<exists>flushed. fc_until_flush ex_env ex_ext ex_selected_screen 1 = Inr flushed
      \<and> map_sum id calls (wWorkspaceForceChange ex_env ex_ext ex_selected_screen 1 None)
          = Inr (calls flushed
              @ [SetFocusTo
                    (spec_resolve_focus (windows flushed)
                       (focused_window (workspaces flushed ! 1)) None
                       (Some ((ex_win 2 ''XTerm'')\<lparr>selected := True, frame_workspace := Some 1\<rparr>))),
                  PostNotification WMDidChangeWorkspaceNotification 1])"
proof -
  obtain scr' where r: "wWorkspaceForceChange ex_env ex_ext ex_selected_screen 1 None = Inr scr'"
    using ex_selected_result by (cases "wWorkspaceForceChange ex_env ex_ext ex_selected_screen 1 None") auto
  have v: "(0::int) \<le> 1" "1 < MAX_WORKSPACES ex_env" "1 \<noteq> current_workspace ex_selected_screen"
    "windows ex_selected_screen \<noteq> []"
    by (simp_all add: ex_selected_screen_def ex_screen_def)
  have m: "find (\<lambda>w. \<not> miniaturized w)
             (map (\<lambda>w. wWindowChangeWorkspace ex_ext w 1) (filter selected (windows ex_selected_screen)))
           = Some ((ex_win 2 ''XTerm'')\<lparr>selected := True, frame_workspace := Some 1\<rparr>)"
    by (simp add: ex_selected_screen_def ex_win_def ex_window_def spec_wWindowChangeWorkspace_def)
  from wWorkspaceForceChange_new_focus [OF r v]
  show ?thesis unfolding m by (simp add: r)
qed

text \<open>
  Of two selected windows the first met by the traversal is miniaturized. Both are
  moved, and the focus goes to the second, the first of them that is not miniaturized.
\<close>

lemma first_selected_miniaturized_passed_over:
  "map (\<lambda>w. (client_win w, selected w, miniaturized w)) (windows ex_selected_screen)
     = [(1, True, True), (2, True, False), (3, False, False)]
   \<and> map_sum id (\<lambda>scr. (map (\<lambda>c. case c of SetFocusTo t \<Rightarrow> map_option client_win t | _ \<Rightarrow> None)
                              (calls scr),
                          map frame_workspace (windows scr)))
        (wWorkspaceForceChange ex_env ex_ext ex_selected_screen 1 None)
     = Inr ([Some 2, None], [Some 1, Some 1, Some 0])"
  by (simp add: fc_defs ex_selected_screen_def ex_screen_def ex_workspace_def ex_win_def
      ex_window_def spec_wWindowUnmap_def spec_wWindowMap_def spec_wWindowChangeWorkspace_def)

end
